theory Spec2Isabelle
  imports Complex_Main "HOL-Library.AList" "HOL-Library.Char_ord" "HOL-Library.List_Lexorder"
begin

section \<open>The ataqv results viewer: data transforms and legend state\<close>

text \<open>
  This theory embeds the parts of \<^verbatim>\<open>src/web/js/ataqv.js\<close> that derive the data of the
  plots from the loaded configuration and that keep the per-sample legend state.
  JavaScript numbers are embedded as real numbers (exact arithmetic, no rounding),
  with the values \<^verbatim>\<open>Infinity\<close> and \<^verbatim>\<open>NaN\<close> added where the source divides by a
  number of the document, strings as \<^typ>\<open>string\<close>, a property or array read on \<^verbatim>\<open>undefined\<close> as the
  error \<open>TypeError\<close>. The DOM, the drawing calls and the event dispatch are not part
  of the embedding.
\<close>

subsection \<open>Errors and loops that may throw\<close>

datatype error = TypeError

text \<open>Sequencing of statements that may throw: the first error ends the computation.\<close>

definition bind :: "error + 'a \<Rightarrow> ('a \<Rightarrow> error + 'b) \<Rightarrow> error + 'b" where
  "bind r f = (case r of Inl e \<Rightarrow> Inl e | Inr v \<Rightarrow> f v)"

text \<open>A \<^verbatim>\<open>for\<close> loop over a sequence whose body updates the state or throws.\<close>

fun for_each :: "('a \<Rightarrow> 's \<Rightarrow> error + 's) \<Rightarrow> 'a list \<Rightarrow> 's \<Rightarrow> error + 's" where
  "for_each body [] s = Inr s"
| "for_each body (v # vs) s = bind (body v s) (for_each body vs)"

subsection \<open>The configuration document\<close>

text \<open>
  \<open>experiment.library\<close> with its three optional strings; \<open>None\<close> is an absent
  (\<^verbatim>\<open>undefined\<close>) property.
\<close>

record library_info =
  lib_sample :: "string option"
  lib_library :: "string option"
  lib_description :: "string option"

record peak_percentiles_info =
  cumulative_fraction_of_hqaa :: "real list"
  cumulative_fraction_of_territory :: "real list"

text \<open>
  The metrics of one experiment, as far as the plots below read them. An entry of
  \<open>fragment_length_counts\<close> is the array \<^verbatim>\<open>[length, fraction]\<close>, read by the viewer at
  index 1; an entry of \<open>mapq_counts\<close> is the array \<^verbatim>\<open>[quality, count]\<close>.
\<close>

record experiment_metrics =
  name :: string
  library :: library_info
  total_reads :: real
  fragment_length_distance :: real
  fragment_length_counts :: "(nat \<times> real) list"
  mapq_counts :: "(nat \<times> real) list"
  peak_percentiles :: "peak_percentiles_info option"

record fragment_length_reference_info =
  source :: string
  distribution :: "(nat \<times> real) list"

text \<open>
  \<open>metrics\<close> is the object \<^verbatim>\<open>configuration.metrics\<close>: its entries in the order in
  which \<^verbatim>\<open>for ... in\<close> and \<^verbatim>\<open>Object.keys\<close> enumerate them. The keys of an object are
  pairwise different, which is the condition \<open>distinct (map fst (metrics conf))\<close> of the
  theorems below.
\<close>

record configuration =
  description :: "string option"
  metrics :: "(string \<times> experiment_metrics) list"
  fragment_length_reference :: "fragment_length_reference_info option"

text \<open>\<^verbatim>\<open>configuration.metrics[experimentID]\<close> followed by a property read.\<close>

definition get_experiment :: "configuration \<Rightarrow> string \<Rightarrow> error + experiment_metrics" where
  "get_experiment conf experimentID =
     (case map_of (metrics conf) experimentID of None \<Rightarrow> Inl TypeError | Some e \<Rightarrow> Inr e)"

text \<open>\<^verbatim>\<open>Object.keys(configuration.metrics).sort()\<close>: the keys in code-unit order.\<close>

definition sorted_experimentIDs :: "configuration \<Rightarrow> string list" where
  "sorted_experimentIDs conf = sort (map fst (metrics conf))"

text \<open>
  \<^verbatim>\<open>a || b\<close> on an optional string: an absent and an empty string are both falsy.
\<close>

definition or_else :: "string option \<Rightarrow> string \<Rightarrow> string" where
  "or_else a b = (case a of None \<Rightarrow> b | Some s \<Rightarrow> if s = [] then b else s)"

text \<open>\<^verbatim>\<open>experiment.library.sample || experiment.name\<close>, the sample of an experiment.\<close>

definition sample_of :: "experiment_metrics \<Rightarrow> string" where
  "sample_of e = or_else (lib_sample (library e)) (name e)"

subsection \<open>The legend state\<close>

text \<open>
  \<open>legendItemState\<close> is a JavaScript \<^verbatim>\<open>Map\<close> from sample to boolean: an association
  list in insertion order, in which \<^verbatim>\<open>set\<close> overwrites the value of a key in place
  or appends a new entry (\<^const>\<open>AList.update\<close>), and \<^verbatim>\<open>get\<close> is \<^const>\<open>map_of\<close>.
\<close>

type_synonym legend_state = "(string \<times> bool) list"

definition legend_set :: "string \<Rightarrow> bool \<Rightarrow> legend_state \<Rightarrow> legend_state" where
  "legend_set sample v st = AList.update sample v st"

definition legend_get :: "legend_state \<Rightarrow> string \<Rightarrow> bool option" where
  "legend_get st sample = map_of st sample"

text \<open>
  \<open>selectLegendItem\<close>. The argument is \<^verbatim>\<open>li.dataset.sample\<close> of the legend item the
  event hit, \<open>None\<close> when there is no legend item or it has no such attribute. An
  absent entry and a false entry are both falsy for \<^verbatim>\<open>legendItemState.get(sample)\<close>.
\<close>

definition selectLegendItem :: "string option \<Rightarrow> legend_state \<Rightarrow> legend_state" where
  "selectLegendItem target st =
     (case target of
        None \<Rightarrow> st
      | Some sample \<Rightarrow>
          if sample = [] then st
          else if legend_get st sample = Some True then legend_set sample False st
          else legend_set sample True st)"

definition deselectAllLegendItems :: "legend_state \<Rightarrow> legend_state" where
  "deselectAllLegendItems st = fold (\<lambda>sample. legend_set sample False) (map fst st) st"

definition selectAllLegendItems :: "legend_state \<Rightarrow> legend_state" where
  "selectAllLegendItems st = fold (\<lambda>sample. legend_set sample True) (map fst st) st"

text \<open>
  The loop of \<open>initialize\<close> over \<^verbatim>\<open>configuration.metrics\<close>, run on the legend state
  \<open>st\<close> (the empty \<^verbatim>\<open>Map\<close> when the page is loaded).
\<close>

definition initialize :: "configuration \<Rightarrow> legend_state \<Rightarrow> error + legend_state" where
  "initialize conf st =
     for_each (\<lambda>experimentID st'.
        bind (get_experiment conf experimentID)
          (\<lambda>e. Inr (legend_set (sample_of e) True st')))
       (map fst (metrics conf)) st"

subsection \<open>Minimum and maximum of an array\<close>

text \<open>
  \<^verbatim>\<open>d3.min\<close> and \<^verbatim>\<open>d3.max\<close> belong to the d3 library, which the viewer loads and
  does not contain. They are embedded as the library documents them: one pass from
  the left that keeps the smaller (larger) value, and \<^verbatim>\<open>undefined\<close>, here \<open>None\<close>, on an
  empty array. The arrays of the viewer hold numbers only, so the values that d3 skips
  (\<^verbatim>\<open>null\<close>, \<^verbatim>\<open>undefined\<close>, \<^verbatim>\<open>NaN\<close>) do not occur.
\<close>

definition d3_min :: "'a::linorder list \<Rightarrow> 'a option" where
  "d3_min vs = (case vs of [] \<Rightarrow> None
                | v # rest \<Rightarrow> Some (fold (\<lambda>w m. if m > w then w else m) rest v))"

definition d3_max :: "'a::linorder list \<Rightarrow> 'a option" where
  "d3_max vs = (case vs of [] \<Rightarrow> None
                | v # rest \<Rightarrow> Some (fold (\<lambda>w m. if m < w then w else m) rest v))"

subsection \<open>The data of a line plot\<close>

record 'y point =
  point_x :: nat
  point_y :: 'y

text \<open>
  The properties \<open>experimentID\<close>, \<open>library\<close>, \<open>description\<close> and \<open>sample\<close> that the
  items of every plot carry; a series of a line plot adds \<open>line\<close>, a dot of the
  scatter plot adds \<open>x\<close>, which the source reads through its accessor \<open>xValue\<close>.
\<close>

record plot_item =
  experimentID :: string
  item_library :: "string option"
  item_description :: "string option"
  item_sample :: string

record 'y series_info = plot_item +
  line :: "'y point list"

record scatter_library = plot_item +
  xValue :: real

record 'y reference_series_info =
  reference_source :: string
  reference_line :: "'y point list"

text \<open>
  The object a \<open>provideData\<close> function returns. \<open>series\<close> is an object keyed by
  experiment ID; \<open>xMax\<close> is \<open>None\<close> when it is \<^verbatim>\<open>undefined\<close>.
\<close>

record 'y plot_dataset =
  series :: "string \<rightharpoonup> 'y series_info"
  reference_series :: "'y reference_series_info option"
  xMax :: "nat option"
  yMax :: 'y
  xLabel :: string
  yLabel :: string

text \<open>
  What an inner loop of a \<open>provideData\<close> function updates: its running number
  (\<open>sum\<close>, \<open>cumulativeFractionOfHQAA\<close>, \<open>cumulativeFractionOfTerritory\<close>),
  \<open>result.yMax\<close> and the \<open>line\<close> under construction.
\<close>

record line_state =
  acc :: real
  acc_yMax :: real
  acc_line :: "real point list"

subsection \<open>The fragment length plot\<close>

text \<open>
  \<^verbatim>\<open>counts[fl][1] || 0\<close>: reading index 1 of an entry that does not exist throws;
  on a number \<^verbatim>\<open>|| 0\<close> changes nothing.
\<close>

definition fraction_at :: "(nat \<times> real) list \<Rightarrow> nat \<Rightarrow> error + real" where
  "fraction_at counts fl =
     (if fl < length counts then Inr (snd (counts ! fl)) else Inl TypeError)"

text \<open>
  The body of the loop over \<open>fl\<close>. \<^verbatim>\<open>fl % resolution == 0\<close> is false for resolution 0
  (the remainder is \<^verbatim>\<open>NaN\<close>), and for a non-zero resolution of either sign it says that
  the resolution divides \<open>fl\<close>.
\<close>

definition resample_step :: "int \<Rightarrow> (nat \<times> real) list \<Rightarrow> nat \<Rightarrow> line_state \<Rightarrow> error + line_state" where
  "resample_step resolution counts fl s =
     bind (fraction_at counts fl)
       (\<lambda>fractionOfReadCount.
          let sum' = acc s + fractionOfReadCount in
          if resolution \<noteq> 0 \<and> int fl mod resolution = 0 then
            let mean = sum' / real_of_int resolution in
            Inr \<lparr>acc = 0,
                 acc_yMax = (if mean > acc_yMax s then mean else acc_yMax s),
                 acc_line = acc_line s @ [\<lparr>point_x = fl, point_y = mean\<rparr>]\<rparr>
          else Inr (s\<lparr>acc := sum'\<rparr>))"

text \<open>
  \<^verbatim>\<open>for (let fl = 0; fl < maximumInterestingFragmentLength; fl++)\<close>: no iteration when
  the bound is \<^verbatim>\<open>undefined\<close>.
\<close>

definition fragment_lengths :: "nat option \<Rightarrow> nat list" where
  "fragment_lengths maximumInterestingFragmentLength =
     (case maximumInterestingFragmentLength of None \<Rightarrow> [] | Some n \<Rightarrow> [0..<n])"

definition resample :: "int \<Rightarrow> (nat \<times> real) list \<Rightarrow> nat option \<Rightarrow> real \<Rightarrow> error + line_state" where
  "resample resolution counts maximumInterestingFragmentLength yMax0 =
     for_each (resample_step resolution counts)
       (fragment_lengths maximumInterestingFragmentLength)
       \<lparr>acc = 0, acc_yMax = yMax0, acc_line = []\<rparr>"

definition fragment_length_series ::
  "configuration \<Rightarrow> int \<Rightarrow> nat option \<Rightarrow> string \<Rightarrow> real plot_dataset \<Rightarrow> error + real plot_dataset" where
  "fragment_length_series conf resolution maximumInterestingFragmentLength eid result =
     bind (get_experiment conf eid)
       (\<lambda>e. bind (resample resolution (fragment_length_counts e)
                     maximumInterestingFragmentLength (yMax result))
          (\<lambda>s. Inr (result
             \<lparr>series := (series result)(eid \<mapsto>
                 \<lparr>experimentID = eid,
                  item_library = Some (or_else (lib_library (library e)) (name e)),
                  item_description = lib_description (library e),
                  item_sample = sample_of e,
                  line = acc_line s\<rparr>),
              yMax := acc_yMax s\<rparr>)))"

text \<open>
  The \<open>provideData\<close> function of \<open>plots.plotFragmentLength\<close>. \<open>resolutionSelect\<close> is
  the integer that \<^verbatim>\<open>Number.parseInt\<close> reads from the resolution select box, \<open>None\<close>
  when the page has no such box. A value that does not parse (\<^verbatim>\<open>NaN\<close>) is
  represented by 0: the loops emit no point for either.
\<close>

definition plotFragmentLength :: "configuration \<Rightarrow> int option \<Rightarrow> error + real plot_dataset" where
  "plotFragmentLength conf resolutionSelect =
     (let experimentIDs = sorted_experimentIDs conf in
      bind (for_each
              (\<lambda>eid counts.
                 bind (get_experiment conf eid)
                   (\<lambda>m. Inr (counts @ [length (fragment_length_counts m)])))
              experimentIDs [])
        (\<lambda>counts.
           let maximumInterestingFragmentLength = d3_min counts in
           bind (case fragment_length_reference conf of
                   None \<Rightarrow> Inl TypeError
                 | Some r \<Rightarrow> Inr r)
             (\<lambda>reference.
                let result = \<lparr>series = Map.empty,
                              reference_series =
                                Some \<lparr>reference_source = source reference, reference_line = []\<rparr>,
                              xMax = maximumInterestingFragmentLength,
                              yMax = 0,
                              xLabel = ''Fragment length (bp)'',
                              yLabel = ''Fraction of all reads''\<rparr>;
                    resolution = (case resolutionSelect of None \<Rightarrow> 10 | Some r \<Rightarrow> r)
                in bind (for_each
                           (fragment_length_series conf resolution maximumInterestingFragmentLength)
                           experimentIDs result)
                     (\<lambda>result'.
                        bind (resample resolution (distribution reference)
                                maximumInterestingFragmentLength (yMax result'))
                          (\<lambda>s. Inr (result'
                             \<lparr>reference_series :=
                                 Some \<lparr>reference_source = source reference,
                                       reference_line = acc_line s\<rparr>,
                               yMax := acc_yMax s\<rparr>))))))"

subsection \<open>The mapping quality plot\<close>

text \<open>
  The quotient \<^verbatim>\<open>mqc[1] / totalReads\<close> of two numbers of the document, which is
  \<^verbatim>\<open>Infinity\<close>, \<^verbatim>\<open>-Infinity\<close> or \<^verbatim>\<open>NaN\<close> when the divisor is 0, and the
  comparison \<^verbatim>\<open>>\<close> on such values, which is false when either side is
  \<^verbatim>\<open>NaN\<close>.
\<close>

datatype js_number = Finite real | Infinity | NegativeInfinity | NaN

definition js_divide :: "real \<Rightarrow> real \<Rightarrow> js_number" where
  "js_divide a b =
     (if b \<noteq> 0 then Finite (a / b)
      else if a > 0 then Infinity
      else if a < 0 then NegativeInfinity
      else NaN)"

fun js_greater :: "js_number \<Rightarrow> js_number \<Rightarrow> bool" where
  "js_greater (Finite a) (Finite b) = (a > b)"
| "js_greater Infinity (Finite b) = True"
| "js_greater Infinity NegativeInfinity = True"
| "js_greater (Finite a) NegativeInfinity = True"
| "js_greater a b = False"

text \<open>What the loop over \<open>mapq_counts\<close> updates: \<open>result.xMax\<close>, \<open>result.yMax\<close>, \<open>line\<close>.\<close>

record mapq_state =
  mq_xMax :: "nat option"
  mq_yMax :: js_number
  mq_line :: "js_number point list"

definition mapq_step :: "real \<Rightarrow> nat \<times> real \<Rightarrow> mapq_state \<Rightarrow> mapq_state" where
  "mapq_step totalReads mqc s =
     (let normed = js_divide (snd mqc) totalReads
      in \<lparr>mq_xMax = (case mq_xMax s of
                         None \<Rightarrow> None
                       | Some m \<Rightarrow> if fst mqc > m then Some (fst mqc) else Some m),
          mq_yMax = (if js_greater normed (mq_yMax s) then normed else mq_yMax s),
          mq_line = mq_line s @ [\<lparr>point_x = fst mqc, point_y = normed\<rparr>]\<rparr>)"

definition mapq_series ::
  "configuration \<Rightarrow> string \<Rightarrow> js_number plot_dataset \<Rightarrow> error + js_number plot_dataset" where
  "mapq_series conf eid result =
     bind (get_experiment conf eid)
       (\<lambda>e. let s = fold (mapq_step (total_reads e)) (mapq_counts e)
                        \<lparr>mq_xMax = xMax result, mq_yMax = yMax result, mq_line = []\<rparr>
             in Inr (result
                  \<lparr>series := (series result)(eid \<mapsto>
                      \<lparr>experimentID = eid,
                       item_library = lib_library (library e),
                       item_description = lib_description (library e),
                       item_sample = sample_of e,
                       line = mq_line s\<rparr>),
                   xMax := mq_xMax s,
                   yMax := mq_yMax s\<rparr>))"

definition plotMapq :: "configuration \<Rightarrow> error + js_number plot_dataset" where
  "plotMapq conf =
     for_each (mapq_series conf) (sorted_experimentIDs conf)
       \<lparr>series = Map.empty, reference_series = None, xMax = Some 0, yMax = Finite 0,
        xLabel = ''Mapping quality'',
        yLabel = ''Fraction of all reads''\<rparr>"

subsection \<open>The peak plots\<close>

text \<open>
  The loop over the 100 percentiles, which \<open>plots.plotPeakReadCounts\<close> and
  \<open>plots.plotPeakTerritory\<close> both contain, the one on
  \<open>cumulative_fraction_of_hqaa\<close> and the other on \<open>cumulative_fraction_of_territory\<close>.
\<close>

definition percentile_step :: "real list \<Rightarrow> nat \<Rightarrow> line_state \<Rightarrow> line_state" where
  "percentile_step percentiles percentile s =
     (let cumulativeFraction =
            (if percentile < length percentiles then percentiles ! percentile else acc s)
      in \<lparr>acc = cumulativeFraction,
          acc_yMax = (if cumulativeFraction > acc_yMax s then cumulativeFraction else acc_yMax s),
          acc_line = acc_line s @ [\<lparr>point_x = percentile + 1, point_y = cumulativeFraction\<rparr>]\<rparr>)"

definition percentile_curve :: "real list \<Rightarrow> real \<Rightarrow> line_state" where
  "percentile_curve percentiles yMax0 =
     fold (percentile_step percentiles) [0..<100] \<lparr>acc = 0, acc_yMax = yMax0, acc_line = []\<rparr>"

text \<open>
  The array \<open>percentiles\<close> of an experiment; \<open>field\<close> selects the array of the plot,
  and \<^verbatim>\<open>new Array(100).fill(0)\<close> stands in when \<open>peak_percentiles\<close> is absent.
\<close>

definition percentiles_or_zeros ::
  "(peak_percentiles_info \<Rightarrow> real list) \<Rightarrow> experiment_metrics \<Rightarrow> real list" where
  "percentiles_or_zeros field e =
     (case peak_percentiles e of Some p \<Rightarrow> field p | None \<Rightarrow> replicate 100 0)"

text \<open>The body of the loop over the experiments.\<close>

definition peak_series ::
  "(peak_percentiles_info \<Rightarrow> real list) \<Rightarrow> configuration \<Rightarrow> string \<Rightarrow> real plot_dataset
     \<Rightarrow> error + real plot_dataset" where
  "peak_series field conf eid result =
     bind (get_experiment conf eid)
       (\<lambda>e. let percentiles = percentiles_or_zeros field e;
                 s = percentile_curve percentiles (yMax result)
             in Inr (result
                  \<lparr>series := (series result)(eid \<mapsto>
                      \<lparr>experimentID = eid,
                       item_library = lib_library (library e),
                       item_description = lib_description (library e),
                       item_sample = sample_of e,
                       line = acc_line s\<rparr>),
                   yMax := acc_yMax s\<rparr>))"

definition plotPeakReadCounts :: "configuration \<Rightarrow> error + real plot_dataset" where
  "plotPeakReadCounts conf =
     for_each (peak_series cumulative_fraction_of_hqaa conf) (sorted_experimentIDs conf)
       \<lparr>series = Map.empty, reference_series = None, xMax = Some 100, yMax = 0,
        xLabel = ''Peak percentile'',
        yLabel = ''Cumulative fraction of high-quality autosomal reads''\<rparr>"

definition plotPeakTerritory :: "configuration \<Rightarrow> error + real plot_dataset" where
  "plotPeakTerritory conf =
     for_each (peak_series cumulative_fraction_of_territory conf) (sorted_experimentIDs conf)
       \<lparr>series = Map.empty, reference_series = None, xMax = Some 100, yMax = 0,
        xLabel = ''Peak percentile'',
        yLabel = ''Cumulative fraction of peak territory''\<rparr>"

subsection \<open>The scatter plot of the fragment length distances\<close>

text \<open>
  \<open>makeLibrary\<close>, which returns \<^verbatim>\<open>undefined\<close> for an unknown experiment. The y value
  of a dot (\<open>getYValue\<close>) is left out: no property below reads it.
\<close>

definition makeLibrary :: "configuration \<Rightarrow> string \<Rightarrow> scatter_library option" where
  "makeLibrary conf eid =
     (case map_of (metrics conf) eid of
        None \<Rightarrow> None
      | Some e \<Rightarrow>
          Some \<lparr>experimentID = eid,
                item_library = Some (or_else (lib_library (library e)) (name e)),
                item_description = lib_description (library e),
                item_sample = sample_of e,
                xValue = fragment_length_distance e\<rparr>)"

text \<open>
  The loop that fills \<open>data\<close> and the \<^verbatim>\<open>Map\<close> \<open>samples\<close>, of which an entry is the
  list \<open>libraries\<close> of a sample; reading \<open>sample\<close> of an undefined library throws.
\<close>

definition add_library ::
  "configuration \<Rightarrow> string
     \<Rightarrow> scatter_library list \<times> (string \<times> scatter_library list) list
     \<Rightarrow> error + scatter_library list \<times> (string \<times> scatter_library list) list" where
  "add_library conf eid st =
     (case makeLibrary conf eid of
        None \<Rightarrow> Inl TypeError
      | Some lib \<Rightarrow>
          Inr (fst st @ [lib],
               (case map_of (snd st) (item_sample lib) of
                  Some libraries \<Rightarrow> AList.update (item_sample lib) (libraries @ [lib]) (snd st)
                | None \<Rightarrow> AList.update (item_sample lib) [lib] (snd st))))"

text \<open>
  The aggregates of a sample. \<open>None\<close> is \<^verbatim>\<open>undefined\<close> for the minimum and the
  maximum and \<^verbatim>\<open>NaN\<close> for the mean and the standard deviation, the values that the
  source computes from an empty list of libraries.
\<close>

record sample_info =
  libraries :: "scatter_library list"
  minDistance :: "real option"
  maxDistance :: "real option"
  meanDistance :: "real option"
  distanceStandardDeviation :: "real option"

definition sample_aggregates :: "scatter_library list \<Rightarrow> sample_info" where
  "sample_aggregates libs =
     (if libs = [] then
        \<lparr>libraries = libs, minDistance = None, maxDistance = None,
         meanDistance = None, distanceStandardDeviation = None\<rparr>
      else
        let mean = fold (\<lambda>b a. a + xValue b) libs 0 / real (length libs);
            squaresOfDifferences = map (\<lambda>a. (xValue a - mean) ^ 2) libs;
            meanSquareOfDifferences =
              fold (\<lambda>b a. a + b) squaresOfDifferences 0 / real (length squaresOfDifferences)
        in \<lparr>libraries = libs,
            minDistance = d3_min (map xValue libs),
            maxDistance = d3_max (map xValue libs),
            meanDistance = Some mean,
            distanceStandardDeviation = Some (sqrt meanSquareOfDifferences)\<rparr>)"

text \<open>\<open>data\<close> and \<open>samples\<close> as the scatter plot has them before it draws.\<close>

definition scatter_data ::
  "configuration \<Rightarrow> error + scatter_library list \<times> (string \<times> sample_info) list" where
  "scatter_data conf =
     bind (for_each (add_library conf) (sorted_experimentIDs conf) ([], []))
       (\<lambda>st. Inr (fst st, map (\<lambda>p. (fst p, sample_aggregates (snd p))) (snd st)))"

text \<open>
  The domain of the x axis of the scatter plot. \<open>None\<close> is \<^verbatim>\<open>NaN\<close>, the limit that
  the source computes from an empty \<open>data\<close>.
\<close>

definition scatter_limit :: "scatter_library list \<Rightarrow> real option" where
  "scatter_limit data =
     (case (d3_min (map xValue data), d3_max (map xValue data)) of
        (Some lo, Some hi) \<Rightarrow> Some (max \<bar>lo\<bar> \<bar>hi\<bar> * 1.05)
      | _ \<Rightarrow> None)"

definition scatter_x_domain :: "scatter_library list \<Rightarrow> real option \<times> real option" where
  "scatter_x_domain data =
     (let limit = scatter_limit data in
      if (case d3_min (map xValue data) of Some lo \<Rightarrow> lo < 0 | None \<Rightarrow> False)
      then (map_option (\<lambda>l. -1 * l) limit, limit)
      else (Some 0, limit))"

subsection \<open>Example documents\<close>

text \<open>
  Small configuration documents on which the theorems below are instantiated. The
  experiment \<open>example_experiment n sm d counts pp\<close> has the name \<open>n\<close>, the optional
  sample \<open>sm\<close>, the distance \<open>d\<close>, the fragment length histogram \<open>counts\<close> and the
  optional percentiles \<open>pp\<close>.
\<close>

definition example_experiment ::
  "string \<Rightarrow> string option \<Rightarrow> real \<Rightarrow> (nat \<times> real) list \<Rightarrow> peak_percentiles_info option
     \<Rightarrow> experiment_metrics" where
  "example_experiment n sm d counts pp =
     \<lparr>name = n,
      library = \<lparr>lib_sample = sm, lib_library = None, lib_description = None\<rparr>,
      total_reads = 1,
      fragment_length_distance = d,
      fragment_length_counts = counts,
      mapq_counts = [],
      peak_percentiles = pp\<rparr>"

definition example_configuration ::
  "(string \<times> experiment_metrics) list \<Rightarrow> (nat \<times> real) list option \<Rightarrow> configuration" where
  "example_configuration ms reference =
     \<lparr>description = None,
      metrics = ms,
      fragment_length_reference =
        map_option (\<lambda>d. \<lparr>source = ''reference'', distribution = d\<rparr>) reference\<rparr>"

text \<open>Three experiments of two samples; the second has no \<open>library.sample\<close>.\<close>

definition three_experiments :: configuration where
  "three_experiments =
     example_configuration
       [(''a'', example_experiment ''e1'' (Some ''s1'') 10 [] None),
        (''b'', example_experiment ''e2'' None 20 [] None),
        (''c'', example_experiment ''e3'' (Some ''s1'') 30 [] None)]
       None"

subsection \<open>Peak percentiles: closed form and examples\<close>

text \<open>
  The value that the percentile loop is shown below to emit at the array index \<open>i\<close>:
  the element at \<open>i\<close> while the array lasts, after that its last element, and 0 for
  an empty array. This function is a description of the result, not a part of the
  source.
\<close>

definition carried :: "real list \<Rightarrow> nat \<Rightarrow> real" where
  "carried ps i = (if i < length ps then ps ! i else if ps = [] then 0 else last ps)"

text \<open>
  An experiment whose percentile arrays have 40 entries, the last of them 1, and an
  experiment without \<open>peak_percentiles\<close>.
\<close>

definition forty_percentiles :: "real list" where
  "forty_percentiles = map (\<lambda>i. real i / 40) [1..<41]"

definition partial_percentiles :: experiment_metrics where
  "partial_percentiles =
     example_experiment ''e1'' (Some ''s1'') 0 []
       (Some \<lparr>cumulative_fraction_of_hqaa = forty_percentiles,
              cumulative_fraction_of_territory = forty_percentiles\<rparr>)"

definition no_percentiles :: experiment_metrics where
  "no_percentiles = example_experiment ''e2'' None 0 [] None"

definition peak_experiments :: configuration where
  "peak_experiments =
     example_configuration [(''b'', no_percentiles), (''a'', partial_percentiles)] None"

subsection \<open>Scatter plot: invariant of the grouping loop and examples\<close>

text \<open>
  What the loop over the experiments maintains for \<open>data\<close> and \<open>samples\<close>: the keys
  of \<open>samples\<close> are pairwise different, and the entry of a sample is the list of the
  libraries of that sample in \<open>data\<close>, in the order of \<open>data\<close>.
\<close>

definition grouped :: "scatter_library list \<times> (string \<times> scatter_library list) list \<Rightarrow> bool" where
  "grouped st = (distinct (map fst (snd st))
     \<and> (\<forall>S. map_of (snd st) S
            = (if S \<in> item_sample ` set (fst st)
               then Some (filter (\<lambda>l. item_sample l = S) (fst st)) else None)))"

text \<open>
  A dot of the scatter plot with a sample and an x value, and a document with three
  experiments of one sample, at the distances 10, 20 and 30.
\<close>

definition dot :: "string \<Rightarrow> real \<Rightarrow> scatter_library" where
  "dot sm v = \<lparr>experimentID = ''e'', item_library = None, item_description = None,
                item_sample = sm, xValue = v\<rparr>"

definition one_sample :: configuration where
  "one_sample =
     example_configuration
       [(''c'', example_experiment ''e3'' (Some ''s1'') 30 [] None),
        (''a'', example_experiment ''e1'' (Some ''s1'') 10 [] None),
        (''b'', example_experiment ''e2'' (Some ''s1'') 20 [] None)]
       None"

subsection \<open>Fragment length plot: descriptions of the result and examples\<close>

text \<open>
  The lengths of the histograms \<open>fragment_length_counts\<close> in the order of the sorted
  experiment IDs, which is the array that the source passes to \<^verbatim>\<open>d3.min\<close>.
\<close>

definition histogram_lengths :: "configuration \<Rightarrow> nat list" where
  "histogram_lengths conf =
     map (\<lambda>eid. length (fragment_length_counts (the (map_of (metrics conf) eid))))
       (sorted_experimentIDs conf)"

text \<open>
  Two functions that describe what the loop over \<open>fl\<close> is shown below to compute for
  a positive resolution \<open>r\<close>; they are not part of the source. After \<open>n\<close> iterations
  the running sum holds the fractions at the positions from \<open>window_start r n\<close> on,
  and the point emitted at \<open>fl\<close> has the y value \<open>trailing_mean r counts fl\<close>: the sum
  of the fractions at the positions \<open>fl - r + 1, ..., fl\<close> (position 0 alone for
  \<open>fl = 0\<close>), divided by \<open>r\<close>.
\<close>

definition window_start :: "nat \<Rightarrow> nat \<Rightarrow> nat" where
  "window_start r n = (if n = 0 then 0 else ((n - 1) div r) * r + 1)"

definition trailing_mean :: "nat \<Rightarrow> (nat \<times> real) list \<Rightarrow> nat \<Rightarrow> real" where
  "trailing_mean r counts fl = (\<Sum>j\<leftarrow>[fl + 1 - r..<fl + 1]. snd (counts ! j)) / real r"

text \<open>
  A document with one experiment whose fractions are 2, 4, 6, 8 and the same
  reference distribution, and that document without \<open>fragment_length_reference\<close>.
\<close>

definition block_counts :: "(nat \<times> real) list" where
  "block_counts = [(0, 2), (1, 4), (2, 6), (3, 8)]"

definition block_experiment :: experiment_metrics where
  "block_experiment = example_experiment ''A'' (Some ''s1'') 0 block_counts None"

definition block_example :: configuration where
  "block_example = example_configuration [(''A'', block_experiment)] (Some block_counts)"

text \<open>
  Histograms of \<open>n\<close> equal fractions, and a document whose two experiments have 150
  and 120 histogram entries.
\<close>

definition uniform_counts :: "nat \<Rightarrow> (nat \<times> real) list" where
  "uniform_counts n = map (\<lambda>i. (i, 1 / real n)) [0..<n]"

definition truncation_example :: configuration where
  "truncation_example =
     example_configuration
       [(''A'', example_experiment ''A'' (Some ''s1'') 0 (uniform_counts 150) None),
        (''B'', example_experiment ''B'' (Some ''s2'') 0 (uniform_counts 120) None)]
       (Some (uniform_counts 150))"

text \<open>
  The same two histograms with the shorter one first, and the document of 150 and 120
  entries with a reference distribution of 100 entries.
\<close>

definition swapped_example :: configuration where
  "swapped_example =
     example_configuration
       [(''A'', example_experiment ''A'' (Some ''s1'') 0 (uniform_counts 120) None),
        (''B'', example_experiment ''B'' (Some ''s2'') 0 (uniform_counts 150) None)]
       (Some (uniform_counts 150))"

definition short_reference_example :: configuration where
  "short_reference_example =
     example_configuration
       [(''A'', example_experiment ''A'' (Some ''s1'') 0 (uniform_counts 150) None),
        (''B'', example_experiment ''B'' (Some ''s2'') 0 (uniform_counts 120) None)]
       (Some (uniform_counts 100))"

definition no_reference_example :: configuration where
  "no_reference_example = example_configuration [(''A'', block_experiment)] None"

section \<open>Properties of the legend state\<close>

lemma map_of_legend_set:
  "map_of (legend_set k v st) = (map_of st)(k \<mapsto> v)"
  by (simp add: legend_set_def update_conv')

lemma distinct_legend_set:
  "distinct (map fst st) \<Longrightarrow> distinct (map fst (legend_set k v st))"
  by (simp add: legend_set_def distinct_update)

lemma keys_legend_set_known:
  "k \<in> fst ` set st \<Longrightarrow> map fst (legend_set k v st) = map fst st"
  by (simp add: legend_set_def update_keys)

lemma legend_set_twice:
  "legend_set k v (legend_set k w st) = legend_set k v st"
  by (induction st) (auto simp: legend_set_def)

lemma legend_set_same:
  "map_of st k = Some v \<Longrightarrow> legend_set k v st = st"
  by (induction st) (auto simp: legend_set_def)

lemma overwrite_unknown_key:
  "k \<notin> fst ` set st \<Longrightarrow> map (\<lambda>p. if fst p = k then (fst p, v) else p) st = st"
  by (induction st) auto

lemma legend_set_map:
  "distinct (map fst st) \<Longrightarrow>
   k \<in> fst ` set st \<Longrightarrow> legend_set k v st = map (\<lambda>p. if fst p = k then (fst p, v) else p) st"
  by (induction st) (auto simp: legend_set_def overwrite_unknown_key)

lemma fold_legend_set_map:
  "distinct (map fst st) \<Longrightarrow> set ks \<subseteq> fst ` set st \<Longrightarrow>
   fold (\<lambda>k. legend_set k v) ks st = map (\<lambda>p. if fst p \<in> set ks then (fst p, v) else p) st"
proof (induction ks arbitrary: st)
  case Nil
  then show ?case by simp
next
  case (Cons k ks)
  let ?st = "map (\<lambda>p. if fst p = k then (fst p, v) else p) st"
  have keys: "map fst ?st = map fst st"
    by (induction st) auto
  have "fold (\<lambda>k. legend_set k v) (k # ks) st = fold (\<lambda>k. legend_set k v) ks ?st"
    using Cons.prems by (simp add: legend_set_map)
  also have "\<dots> = map (\<lambda>p. if fst p \<in> set ks then (fst p, v) else p) ?st"
  proof (rule Cons.IH)
    show "distinct (map fst ?st)" using Cons.prems(1) unfolding keys .
    have "fst ` set ?st = fst ` set st"
      using arg_cong [OF keys, of set] by (simp only: set_map)
    then show "set ks \<subseteq> fst ` set ?st" using Cons.prems(2) by simp
  qed
  also have "\<dots> = map (\<lambda>p. if fst p \<in> set (k # ks) then (fst p, v) else p) st"
    by auto
  finally show ?case .
qed

lemma set_all_entries:
  "distinct (map fst st) \<Longrightarrow>
   fold (\<lambda>k. legend_set k v) (map fst st) st = map (\<lambda>p. (fst p, v)) st"
  by (simp add: fold_legend_set_map)

text \<open>
  Claim C10. On a legend state (a \<^verbatim>\<open>Map\<close>, so with pairwise different keys),
  \<open>selectAllLegendItems\<close> followed by \<open>deselectAllLegendItems\<close> leaves the same
  samples, each with the entry false, and \<open>deselectAllLegendItems\<close> followed by
  \<open>selectAllLegendItems\<close> leaves the same samples, each with the entry true.
\<close>

theorem select_then_deselect_all:
  assumes "distinct (map fst st)"
  shows "deselectAllLegendItems (selectAllLegendItems st) = map (\<lambda>p. (fst p, False)) st
       \<and> selectAllLegendItems (deselectAllLegendItems st) = map (\<lambda>p. (fst p, True)) st
       \<and> (\<forall>S \<in> fst ` set st.
             legend_get (deselectAllLegendItems (selectAllLegendItems st)) S = Some False
           \<and> legend_get (selectAllLegendItems (deselectAllLegendItems st)) S = Some True)"
proof -
  have keys: "map fst (map (\<lambda>p. (fst p, w)) st) = map fst st" for w :: bool
    by simp
  have d: "distinct (map fst (map (\<lambda>p. (fst p, w)) st))" for w :: bool
    using assms by (simp add: comp_def)
  have a: "deselectAllLegendItems (selectAllLegendItems st) = map (\<lambda>p. (fst p, False)) st"
    unfolding deselectAllLegendItems_def selectAllLegendItems_def
    using set_all_entries [OF assms, of True] set_all_entries [OF d, of False True]
    by (simp add: comp_def)
  have b: "selectAllLegendItems (deselectAllLegendItems st) = map (\<lambda>p. (fst p, True)) st"
    unfolding deselectAllLegendItems_def selectAllLegendItems_def
    using set_all_entries [OF assms, of False] set_all_entries [OF d, of True False]
    by (simp add: comp_def)
  have c: "S \<in> fst ` set st \<Longrightarrow> map_of (map (\<lambda>p. (fst p, w)) st) S = Some w" for S and w :: bool
    by (induction st) auto
  show ?thesis using a b c by (simp add: legend_get_def)
qed

theorem select_then_deselect_all_witness:
  "distinct (map fst [(''s1'', True), (''s2'', False)])
   \<and> deselectAllLegendItems (selectAllLegendItems [(''s1'', True), (''s2'', False)])
       = [(''s1'', False), (''s2'', False)]
   \<and> selectAllLegendItems (deselectAllLegendItems [(''s1'', True), (''s2'', False)])
       = [(''s1'', True), (''s2'', True)]"
proof -
  have d: "distinct (map fst [(''s1'', True), (''s2'', False)])" by simp
  show ?thesis using d select_then_deselect_all [OF d] by simp
qed

text \<open>
  Claim C9. A click on the legend item of a sample \<open>S\<close> that has an entry negates
  the entry of \<open>S\<close>, leaves the entry of every other sample and the set of samples as
  they were, and a second click restores the legend state.
\<close>

theorem toggle_flips_one_entry:
  assumes "legend_get st S = Some b" and "S \<noteq> []"
  shows "legend_get (selectLegendItem (Some S) st) S = Some (\<not> b)
       \<and> (\<forall>T. T \<noteq> S \<longrightarrow> legend_get (selectLegendItem (Some S) st) T = legend_get st T)
       \<and> map fst (selectLegendItem (Some S) st) = map fst st
       \<and> selectLegendItem (Some S) (selectLegendItem (Some S) st) = st"
proof -
  have known: "S \<in> fst ` set st"
    using assms(1) by (metis legend_get_def map_of_eq_None_iff option.distinct(1))
  have step: "selectLegendItem (Some S) st = legend_set S (\<not> b) st"
    using assms by (cases b) (simp_all add: selectLegendItem_def)
  have get: "legend_get (legend_set S (\<not> b) st) S = Some (\<not> b)"
    by (simp add: legend_get_def map_of_legend_set)
  have again: "selectLegendItem (Some S) (legend_set S (\<not> b) st) = legend_set S b (legend_set S (\<not> b) st)"
    using assms(2) get by (cases b) (simp_all add: selectLegendItem_def)
  have "legend_set S b (legend_set S (\<not> b) st) = st"
    using assms(1) by (simp add: legend_set_twice legend_set_same legend_get_def)
  then show ?thesis
    using step get again known
    by (simp add: legend_get_def map_of_legend_set keys_legend_set_known)
qed

theorem toggle_flips_one_entry_witness:
  "legend_get [(''s1'', True), (''s2'', False)] ''s2'' = Some False \<and> ''s2'' \<noteq> []
   \<and> selectLegendItem (Some ''s2'') [(''s1'', True), (''s2'', False)] = [(''s1'', True), (''s2'', True)]
   \<and> selectLegendItem (Some ''s2'') (selectLegendItem (Some ''s2'') [(''s1'', True), (''s2'', False)])
       = [(''s1'', True), (''s2'', False)]"
proof -
  have h: "legend_get [(''s1'', True), (''s2'', False)] ''s2'' = Some False"
    by (simp add: legend_get_def)
  have n: "''s2'' \<noteq> []" by simp
  have e: "selectLegendItem (Some ''s2'') [(''s1'', True), (''s2'', False)] = [(''s1'', True), (''s2'', True)]"
    by (simp add: selectLegendItem_def legend_get_def legend_set_def)
  show ?thesis using h n e toggle_flips_one_entry [OF h n] by simp
qed

lemma get_experiment_entry:
  "distinct (map fst (metrics conf)) \<Longrightarrow> (eid, e) \<in> set (metrics conf) \<Longrightarrow>
   get_experiment conf eid = Inr e"
  by (simp add: get_experiment_def)

lemma get_experiment_key:
  "eid \<in> fst ` set (metrics conf) \<Longrightarrow> \<exists>e. get_experiment conf eid = Inr e"
  by (cases "map_of (metrics conf) eid")
     (auto simp: get_experiment_def map_of_eq_None_iff)

lemma initialize_loop:
  "\<forall>p \<in> set ms. get_experiment conf (fst p) = Inr (snd p) \<Longrightarrow>
   for_each (\<lambda>eid st'.
        bind (get_experiment conf eid) (\<lambda>e. Inr (legend_set (sample_of e) True st')))
     (map fst ms) st
   = Inr (fold (\<lambda>sample. legend_set sample True) (map (sample_of \<circ> snd) ms) st)"
  by (induction ms arbitrary: st) (simp_all add: bind_def)

lemma initialize_fold:
  assumes "distinct (map fst (metrics conf))"
  shows "initialize conf st
       = Inr (fold (\<lambda>sample. legend_set sample True) (map (sample_of \<circ> snd) (metrics conf)) st)"
  unfolding initialize_def
  by (rule initialize_loop) (simp add: get_experiment_entry [OF assms])

lemma map_of_fold_legend_set:
  "map_of (fold (\<lambda>sample. legend_set sample v) ss st) k
   = (if k \<in> set ss then Some v else map_of st k)"
  by (induction ss arbitrary: st) (auto simp: map_of_legend_set)

lemma distinct_fold_legend_set:
  "distinct (map fst st) \<Longrightarrow> distinct (map fst (fold (\<lambda>sample. legend_set sample v) ss st))"
  by (induction ss arbitrary: st) (simp_all add: distinct_legend_set)

lemma keys_fold_legend_set:
  "fst ` set (fold (\<lambda>sample. legend_set sample v) ss st) = fst ` set st \<union> set ss"
  by (induction ss arbitrary: st) (auto simp: legend_set_def dom_update)

lemma no_entry_for_unknown_key:
  "k \<notin> fst ` set st \<Longrightarrow> filter (\<lambda>p. fst p = k) st = []"
  by (induction st) auto

lemma one_entry_per_key:
  "distinct (map fst st) \<Longrightarrow> k \<in> fst ` set st \<Longrightarrow> length (filter (\<lambda>p. fst p = k) st) = 1"
proof (induction st)
  case Nil
  then show ?case by simp
next
  case (Cons p st)
  show ?case
  proof (cases "fst p = k")
    case True
    then have "filter (\<lambda>q. fst q = k) st = []"
      using Cons.prems(1) by (intro no_entry_for_unknown_key) simp
    with True show ?thesis by simp
  next
    case False
    then show ?thesis using Cons by auto
  qed
qed

text \<open>
  Claim C8. \<open>initialize\<close>, run on the empty legend state, does not throw, and the
  state it leaves has the samples of the experiments (\<open>library.sample\<close>, or the name
  of the experiment where that is absent or empty) as its keys, with exactly one
  entry for each of them, and that entry is true.
\<close>

theorem initialize_selects_every_sample:
  assumes "distinct (map fst (metrics conf))"
  shows "\<exists>st. initialize conf [] = Inr st
           \<and> fst ` set st = sample_of ` snd ` set (metrics conf)
           \<and> (\<forall>S \<in> sample_of ` snd ` set (metrics conf).
                 legend_get st S = Some True \<and> length (filter (\<lambda>p. fst p = S) st) = 1)"
proof -
  let ?st = "fold (\<lambda>sample. legend_set sample True) (map (sample_of \<circ> snd) (metrics conf)) []"
  have r: "initialize conf [] = Inr ?st"
    by (rule initialize_fold [OF assms])
  have k: "fst ` set ?st = sample_of ` snd ` set (metrics conf)"
    by (simp add: keys_fold_legend_set image_comp)
  have d: "distinct (map fst ?st)"
    by (rule distinct_fold_legend_set) simp
  have g: "legend_get ?st S = Some True" if "S \<in> sample_of ` snd ` set (metrics conf)" for S
    using that by (simp add: legend_get_def map_of_fold_legend_set image_comp)
  have c: "length (filter (\<lambda>p. fst p = S) ?st) = 1"
    if "S \<in> sample_of ` snd ` set (metrics conf)" for S
    using one_entry_per_key [OF d] that k by blast
  show ?thesis using r k g c by blast
qed

theorem initialize_selects_every_sample_witness:
  "distinct (map fst (metrics three_experiments))
   \<and> (\<exists>st. initialize three_experiments [] = Inr st
          \<and> fst ` set st = sample_of ` snd ` set (metrics three_experiments)
          \<and> (\<forall>S \<in> sample_of ` snd ` set (metrics three_experiments).
                legend_get st S = Some True \<and> length (filter (\<lambda>p. fst p = S) st) = 1))
   \<and> initialize three_experiments [] = Inr [(''s1'', True), (''e2'', True)]"
proof -
  have d: "distinct (map fst (metrics three_experiments))"
    by (simp add: three_experiments_def example_configuration_def)
  have e: "initialize three_experiments [] = Inr [(''s1'', True), (''e2'', True)]"
    by (simp add: initialize_def bind_def get_experiment_def three_experiments_def
        example_configuration_def example_experiment_def sample_of_def or_else_def legend_set_def)
  show ?thesis using d e initialize_selects_every_sample [OF d] by simp
qed

section \<open>Properties of the peak plots\<close>

lemma percentile_loop:
  "fold (percentile_step ps) [0..<n] \<lparr>acc = 0, acc_yMax = y0, acc_line = []\<rparr> = s \<Longrightarrow>
   acc_line s = map (\<lambda>i. \<lparr>point_x = i + 1, point_y = carried ps i\<rparr>) [0..<n]
   \<and> acc s = (if n = 0 then 0 else carried ps (n - 1))"
proof (induction n arbitrary: s)
  case 0
  then show ?case by auto
next
  case (Suc n)
  define t where "t = fold (percentile_step ps) [0..<n] \<lparr>acc = 0, acc_yMax = y0, acc_line = []\<rparr>"
  have s: "s = percentile_step ps n t"
    using Suc.prems by (simp add: t_def)
  have t: "acc_line t = map (\<lambda>i. \<lparr>point_x = i + 1, point_y = carried ps i\<rparr>) [0..<n]"
    "acc t = (if n = 0 then 0 else carried ps (n - 1))"
    using Suc.IH [OF t_def [symmetric]] by simp_all
  have c: "(if n < length ps then ps ! n else acc t) = carried ps n"
  proof (cases "n < length ps")
    case True
    then show ?thesis by (simp add: carried_def)
  next
    case False
    show ?thesis
    proof (cases "n = length ps \<and> ps \<noteq> []")
      case True
      then show ?thesis using t(2) by (simp add: carried_def last_conv_nth)
    next
      case False
      with \<open>\<not> n < length ps\<close> have "ps = [] \<or> \<not> n - 1 < length ps" by auto
      then show ?thesis using \<open>\<not> n < length ps\<close> t(2) by (auto simp: carried_def)
    qed
  qed
  show ?case
    unfolding s percentile_step_def Let_def c using t(1) by simp
qed

lemma percentile_curve_line:
  "acc_line (percentile_curve ps y0) = map (\<lambda>i. \<lparr>point_x = i + 1, point_y = carried ps i\<rparr>) [0..<100]"
  unfolding percentile_curve_def using percentile_loop [OF refl] by blast

lemma peak_loop:
  assumes "set ids \<subseteq> fst ` set (metrics conf)"
  shows "\<exists>d. for_each (peak_series field conf) ids r = Inr d
           \<and> (\<forall>eid. (eid \<in> set ids \<longrightarrow>
                      (\<exists>e s y0. get_experiment conf eid = Inr e \<and> series d eid = Some s
                           \<and> line s = acc_line (percentile_curve (percentiles_or_zeros field e) y0)))
                  \<and> (eid \<notin> set ids \<longrightarrow> series d eid = series r eid))"
  using assms
proof (induction ids arbitrary: r)
  case Nil
  then show ?case by simp
next
  case (Cons i ids)
  obtain e where e: "get_experiment conf i = Inr e"
    using Cons.prems get_experiment_key by fastforce
  define s where "s = percentile_curve (percentiles_or_zeros field e) (yMax r)"
  define item where "item = \<lparr>experimentID = i, item_library = lib_library (library e),
     item_description = lib_description (library e), item_sample = sample_of e, line = acc_line s\<rparr>"
  define r' where "r' = r\<lparr>series := (series r)(i \<mapsto> item), yMax := acc_yMax s\<rparr>"
  have step: "peak_series field conf i r = Inr r'"
    by (simp add: peak_series_def e bind_def Let_def r'_def item_def s_def)
  obtain d where d: "for_each (peak_series field conf) ids r' = Inr d"
    and known: "\<And>eid. eid \<in> set ids \<Longrightarrow>
           \<exists>e s y0. get_experiment conf eid = Inr e \<and> series d eid = Some s
              \<and> line s = acc_line (percentile_curve (percentiles_or_zeros field e) y0)"
    and other: "\<And>eid. eid \<notin> set ids \<Longrightarrow> series d eid = series r' eid"
    using Cons.IH [of r'] Cons.prems by auto
  have run: "for_each (peak_series field conf) (i # ids) r = Inr d"
    by (simp add: step d bind_def)
  have head: "\<exists>e s y0. get_experiment conf i = Inr e \<and> series d i = Some s
              \<and> line s = acc_line (percentile_curve (percentiles_or_zeros field e) y0)"
  proof (cases "i \<in> set ids")
    case True
    then show ?thesis by (rule known)
  next
    case False
    then have "series d i = Some item"
      using other by (simp add: r'_def)
    moreover have "line item = acc_line (percentile_curve (percentiles_or_zeros field e) (yMax r))"
      by (simp add: item_def s_def)
    ultimately show ?thesis using e by blast
  qed
  have rest: "eid \<notin> set (i # ids) \<Longrightarrow> series d eid = series r eid" for eid
    using other [of eid] by (simp add: r'_def)
  show ?case using run head known rest by auto
qed

lemma set_sorted_experimentIDs:
  "set (sorted_experimentIDs conf) = fst ` set (metrics conf)"
  by (simp add: sorted_experimentIDs_def)

lemma peak_plot_series:
  assumes "distinct (map fst (metrics conf))" and "(eid, e) \<in> set (metrics conf)"
  shows "\<exists>d s. for_each (peak_series field conf) (sorted_experimentIDs conf) r = Inr d
           \<and> series d eid = Some s
           \<and> line s = map (\<lambda>i. \<lparr>point_x = i + 1, point_y = carried (percentiles_or_zeros field e) i\<rparr>) [0..<100]"
proof -
  have "eid \<in> set (sorted_experimentIDs conf)"
    using assms(2) by (force simp: set_sorted_experimentIDs)
  moreover have "get_experiment conf eid = Inr e"
    using assms by (rule get_experiment_entry)
  moreover obtain d where "for_each (peak_series field conf) (sorted_experimentIDs conf) r = Inr d"
    and "\<And>i. i \<in> set (sorted_experimentIDs conf) \<Longrightarrow>
           \<exists>e s y0. get_experiment conf i = Inr e \<and> series d i = Some s
              \<and> line s = acc_line (percentile_curve (percentiles_or_zeros field e) y0)"
    using peak_loop [of "sorted_experimentIDs conf" conf field r]
    by (auto simp: set_sorted_experimentIDs)
  ultimately show ?thesis
    by (fastforce simp: percentile_curve_line)
qed

lemma carried_beyond:
  "length ps \<le> i \<Longrightarrow> carried ps i = (if ps = [] then 0 else last ps)"
  by (simp add: carried_def)

lemma peak_plot_carry_forward:
  assumes "distinct (map fst (metrics conf))" and "(eid, e) \<in> set (metrics conf)"
    and "peak_percentiles e = Some pp"
  shows "\<exists>d s. for_each (peak_series field conf) (sorted_experimentIDs conf) r = Inr d
           \<and> series d eid = Some s \<and> length (line s) = 100
           \<and> (\<forall>k. length (field pp) < k \<and> k \<le> 100 \<longrightarrow>
                  line s ! (k - 1)
                  = \<lparr>point_x = k, point_y = (if field pp = [] then 0 else last (field pp))\<rparr>)"
proof -
  obtain d s where d: "for_each (peak_series field conf) (sorted_experimentIDs conf) r = Inr d"
    and s: "series d eid = Some s"
    and l: "line s = map (\<lambda>i. \<lparr>point_x = i + 1, point_y = carried (percentiles_or_zeros field e) i\<rparr>) [0..<100]"
    using peak_plot_series [OF assms(1,2)] by blast
  have p: "percentiles_or_zeros field e = field pp"
    by (simp add: percentiles_or_zeros_def assms(3))
  have "line s ! (k - 1) = \<lparr>point_x = k, point_y = (if field pp = [] then 0 else last (field pp))\<rparr>"
    if "length (field pp) < k" "k \<le> 100" for k
  proof -
    have "k - 1 < 100" "length (field pp) \<le> k - 1" "k - 1 + 1 = k"
      using that by auto
    then show ?thesis
      by (simp add: l p carried_beyond del: upt_Suc)
  qed
  then show ?thesis using d s l by auto
qed

text \<open>
  Claim C3. For an experiment with \<open>peak_percentiles\<close>, both peak plots return a
  series of 100 points for it, and every point with a 1-based index \<open>k\<close> beyond the
  length \<open>L < 100\<close> of the percentile array has \<open>x = k\<close> and as \<open>y\<close> the last element
  of the array (index \<open>L - 1\<close>); for an empty array, which has no last element, \<open>y\<close>
  is the initial 0.
\<close>

theorem percentiles_carried_forward:
  assumes "distinct (map fst (metrics conf))" and "(eid, e) \<in> set (metrics conf)"
    and "peak_percentiles e = Some pp"
  shows "(\<exists>d s. plotPeakReadCounts conf = Inr d \<and> series d eid = Some s \<and> length (line s) = 100
            \<and> (\<forall>k. length (cumulative_fraction_of_hqaa pp) < k \<and> k \<le> 100 \<longrightarrow>
                   line s ! (k - 1)
                   = \<lparr>point_x = k,
                      point_y = (if cumulative_fraction_of_hqaa pp = [] then 0
                                 else last (cumulative_fraction_of_hqaa pp))\<rparr>))
       \<and> (\<exists>d s. plotPeakTerritory conf = Inr d \<and> series d eid = Some s \<and> length (line s) = 100
            \<and> (\<forall>k. length (cumulative_fraction_of_territory pp) < k \<and> k \<le> 100 \<longrightarrow>
                   line s ! (k - 1)
                   = \<lparr>point_x = k,
                      point_y = (if cumulative_fraction_of_territory pp = [] then 0
                                 else last (cumulative_fraction_of_territory pp))\<rparr>))"
  unfolding plotPeakReadCounts_def plotPeakTerritory_def
  using peak_plot_carry_forward [OF assms, of cumulative_fraction_of_hqaa]
    peak_plot_carry_forward [OF assms, of cumulative_fraction_of_territory]
  by blast

lemma forty_percentiles_facts:
  "length forty_percentiles = 40" "forty_percentiles \<noteq> []" "last forty_percentiles = forty_percentiles ! 39"
    "forty_percentiles ! 39 = 1"
  by (simp_all add: forty_percentiles_def last_conv_nth del: upt_Suc)

theorem percentiles_carried_forward_witness:
  "distinct (map fst (metrics peak_experiments))
   \<and> (''a'', partial_percentiles) \<in> set (metrics peak_experiments)
   \<and> peak_percentiles partial_percentiles
       = Some \<lparr>cumulative_fraction_of_hqaa = forty_percentiles,
               cumulative_fraction_of_territory = forty_percentiles\<rparr>
   \<and> (\<exists>d s. plotPeakReadCounts peak_experiments = Inr d \<and> series d ''a'' = Some s \<and> length (line s) = 100
          \<and> (\<forall>k. 40 < k \<and> k \<le> 100 \<longrightarrow>
                 line s ! (k - 1) = \<lparr>point_x = k, point_y = forty_percentiles ! 39\<rparr>))
   \<and> (\<exists>d s. plotPeakTerritory peak_experiments = Inr d \<and> series d ''a'' = Some s \<and> length (line s) = 100
          \<and> (\<forall>k. 40 < k \<and> k \<le> 100 \<longrightarrow>
                 line s ! (k - 1) = \<lparr>point_x = k, point_y = forty_percentiles ! 39\<rparr>))"
proof -
  have d: "distinct (map fst (metrics peak_experiments))"
    by (simp add: peak_experiments_def example_configuration_def)
  have m: "(''a'', partial_percentiles) \<in> set (metrics peak_experiments)"
    by (simp add: peak_experiments_def example_configuration_def)
  have p: "peak_percentiles partial_percentiles
       = Some \<lparr>cumulative_fraction_of_hqaa = forty_percentiles,
               cumulative_fraction_of_territory = forty_percentiles\<rparr>"
    by (simp add: partial_percentiles_def example_experiment_def)
  show ?thesis
    using d m p percentiles_carried_forward [OF d m p]
    by (simp add: forty_percentiles_facts)
qed

text \<open>
  Claim C7. For an experiment without \<open>peak_percentiles\<close>, both peak plots take an
  array of 100 zeros as its percentiles, and the series they return for it has the
  100 points \<open>x = 1, ..., 100\<close> with \<open>y = 0\<close>.
\<close>

theorem missing_percentiles_give_zeros:
  assumes "distinct (map fst (metrics conf))" and "(eid, e) \<in> set (metrics conf)"
    and "peak_percentiles e = None"
  shows "percentiles_or_zeros cumulative_fraction_of_hqaa e = replicate 100 0
       \<and> percentiles_or_zeros cumulative_fraction_of_territory e = replicate 100 0
       \<and> (\<exists>d s. plotPeakReadCounts conf = Inr d \<and> series d eid = Some s
              \<and> line s = map (\<lambda>i. \<lparr>point_x = i + 1, point_y = 0\<rparr>) [0..<100])
       \<and> (\<exists>d s. plotPeakTerritory conf = Inr d \<and> series d eid = Some s
              \<and> line s = map (\<lambda>i. \<lparr>point_x = i + 1, point_y = 0\<rparr>) [0..<100])"
proof -
  have z: "percentiles_or_zeros field e = replicate 100 0" for field
    by (simp add: percentiles_or_zeros_def assms(3))
  have c: "carried (replicate 100 0) i = 0" for i
    by (simp add: carried_def)
  show ?thesis
    unfolding plotPeakReadCounts_def plotPeakTerritory_def
    using peak_plot_series [OF assms(1,2), of cumulative_fraction_of_hqaa]
      peak_plot_series [OF assms(1,2), of cumulative_fraction_of_territory]
    by (simp add: z c del: upt_Suc)
qed

theorem missing_percentiles_give_zeros_witness:
  "distinct (map fst (metrics peak_experiments))
   \<and> (''b'', no_percentiles) \<in> set (metrics peak_experiments)
   \<and> peak_percentiles no_percentiles = None
   \<and> (\<exists>d s. plotPeakReadCounts peak_experiments = Inr d \<and> series d ''b'' = Some s
          \<and> line s = map (\<lambda>i. \<lparr>point_x = i + 1, point_y = 0\<rparr>) [0..<100])
   \<and> (\<exists>d s. plotPeakTerritory peak_experiments = Inr d \<and> series d ''b'' = Some s
          \<and> line s = map (\<lambda>i. \<lparr>point_x = i + 1, point_y = 0\<rparr>) [0..<100])"
proof -
  have d: "distinct (map fst (metrics peak_experiments))"
    by (simp add: peak_experiments_def example_configuration_def)
  have m: "(''b'', no_percentiles) \<in> set (metrics peak_experiments)"
    by (simp add: peak_experiments_def example_configuration_def)
  have p: "peak_percentiles no_percentiles = None"
    by (simp add: no_percentiles_def example_experiment_def)
  show ?thesis
    using d m p missing_percentiles_give_zeros [OF d m p] by simp
qed

section \<open>Loops that may throw\<close>

lemma for_each_invariant:
  assumes "for_each body vs s = Inr s'" and "I s"
    and "\<And>v t t'. v \<in> set vs \<Longrightarrow> I t \<Longrightarrow> body v t = Inr t' \<Longrightarrow> I t'"
  shows "I s'"
  using assms
proof (induction vs arbitrary: s)
  case Nil
  then show ?case by simp
next
  case (Cons v vs)
  from Cons.prems(1) obtain t where t: "body v s = Inr t" and r: "for_each body vs t = Inr s'"
    by (auto simp: bind_def split: sum.splits)
  have "I t" using Cons.prems(2,3) t by auto
  then show ?case using Cons.IH [OF r] Cons.prems(3) by auto
qed

lemma for_each_total:
  assumes "\<And>v t. v \<in> set vs \<Longrightarrow> \<exists>t'. body v t = Inr t'"
  shows "\<exists>s'. for_each body vs s = Inr s'"
  using assms
proof (induction vs arbitrary: s)
  case Nil
  then show ?case by simp
next
  case (Cons v vs)
  then obtain t where "body v s = Inr t" by fastforce
  then show ?case using Cons by (simp add: bind_def)
qed

section \<open>Properties of the scatter plot\<close>

lemma fold_min: "fold (\<lambda>w m. if m > w then w else m) vs (v::'a::linorder) = Min (insert v (set vs))"
proof (induction vs arbitrary: v)
  case Nil
  then show ?case by simp
next
  case (Cons a vs)
  have "(if v > a then a else v) = min a v" by (auto simp: min_def)
  then have "fold (\<lambda>w m. if m > w then w else m) (a # vs) v
           = fold (\<lambda>w m. if m > w then w else m) vs (min a v)"
    by simp
  also have "\<dots> = Min (insert (min a v) (set vs))"
    by (rule Cons.IH)
  also have "\<dots> = Min (insert v (set (a # vs)))"
    by (cases "set vs = {}") (simp_all add: ac_simps)
  finally show ?case .
qed

lemma fold_max: "fold (\<lambda>w m. if m < w then w else m) vs (v::'a::linorder) = Max (insert v (set vs))"
proof (induction vs arbitrary: v)
  case Nil
  then show ?case by simp
next
  case (Cons a vs)
  have "(if v < a then a else v) = max a v" by (auto simp: max_def)
  then have "fold (\<lambda>w m. if m < w then w else m) (a # vs) v
           = fold (\<lambda>w m. if m < w then w else m) vs (max a v)"
    by simp
  also have "\<dots> = Max (insert (max a v) (set vs))"
    by (rule Cons.IH)
  also have "\<dots> = Max (insert v (set (a # vs)))"
    by (cases "set vs = {}") (simp_all add: ac_simps)
  finally show ?case .
qed

lemma d3_min_Min: "vs \<noteq> [] \<Longrightarrow> d3_min vs = Some (Min (set vs))"
  by (cases vs) (simp_all add: d3_min_def fold_min)

lemma d3_max_Max: "vs \<noteq> [] \<Longrightarrow> d3_max vs = Some (Max (set vs))"
  by (cases vs) (simp_all add: d3_max_def fold_max)

text \<open>
  Claim C4. For a non-empty \<open>data\<close>, with \<open>limit\<close> the larger of the absolute
  values of the least and the greatest x value, times 1.05: the domain of the x axis
  is \<open>[-limit, limit]\<close> if some x value is negative, and \<open>[0, limit]\<close> otherwise.
\<close>

theorem scatter_x_domain_rule:
  assumes "data \<noteq> []"
  shows "scatter_x_domain data =
     (let lo = Min (xValue ` set data); hi = Max (xValue ` set data);
          limit = max \<bar>lo\<bar> \<bar>hi\<bar> * 1.05
      in if \<exists>d \<in> set data. xValue d < 0 then (Some (- limit), Some limit)
         else (Some 0, Some limit))"
proof -
  have n: "map xValue data \<noteq> []" using assms by simp
  have neg: "(Min (xValue ` set data) < 0) = (\<exists>d \<in> set data. xValue d < 0)"
    using assms by (simp add: Min_less_iff)
  show ?thesis
    by (simp add: scatter_x_domain_def scatter_limit_def d3_min_Min [OF n] d3_max_Max [OF n]
        Let_def neg)
qed

theorem scatter_x_domain_rule_witness:
  "[dot ''s1'' (-3), dot ''s2'' 2] \<noteq> []
   \<and> scatter_x_domain [dot ''s1'' (-3), dot ''s2'' 2] = (Some (- (315 / 100)), Some (315 / 100))
   \<and> [dot ''s1'' 1, dot ''s2'' 4] \<noteq> []
   \<and> scatter_x_domain [dot ''s1'' 1, dot ''s2'' 4] = (Some 0, Some (42 / 10))"
proof -
  have a: "[dot ''s1'' (-3), dot ''s2'' 2] \<noteq> []" by simp
  have b: "[dot ''s1'' 1, dot ''s2'' 4] \<noteq> []" by simp
  show ?thesis
    using scatter_x_domain_rule [OF a] scatter_x_domain_rule [OF b]
    by (simp add: dot_def Let_def)
qed

lemma filter_none: "S \<notin> f ` set xs \<Longrightarrow> filter (\<lambda>l. f l = S) xs = []"
  by (induction xs) auto

lemma add_library_grouped:
  assumes "grouped st" and "add_library conf eid st = Inr st'"
  shows "grouped st'"
proof -
  obtain lib where lib: "makeLibrary conf eid = Some lib"
    using assms(2) by (auto simp: add_library_def split: option.splits)
  let ?S = "item_sample lib"
  let ?libs = "case map_of (snd st) ?S of Some ls \<Rightarrow> ls @ [lib] | None \<Rightarrow> [lib]"
  have st': "st' = (fst st @ [lib], AList.update ?S ?libs (snd st))"
    using assms(2) lib by (auto simp: add_library_def split: option.splits)
  have libs: "?libs = filter (\<lambda>l. item_sample l = ?S) (fst st @ [lib])"
    using assms(1) by (auto simp: grouped_def filter_none)
  have d: "distinct (map fst (snd st'))"
    using assms(1) by (simp add: st' grouped_def distinct_update)
  have m: "map_of (snd st') S
            = (if S \<in> item_sample ` set (fst st')
               then Some (filter (\<lambda>l. item_sample l = S) (fst st')) else None)" for S
  proof (cases "S = ?S")
    case True
    then show ?thesis using libs by (simp add: st' update_conv')
  next
    case False
    then show ?thesis using assms(1) by (auto simp: st' update_conv' grouped_def)
  qed
  show ?thesis unfolding grouped_def using d m by blast
qed

lemma fold_add: "fold (\<lambda>b a. a + f b) xs (a0::real) = a0 + sum_list (map f xs)"
  by (induction xs arbitrary: a0) simp_all

lemma sample_aggregates_stats:
  assumes "libs \<noteq> []"
  shows "libraries (sample_aggregates libs) = libs"
    and "meanDistance (sample_aggregates libs)
         = Some (sum_list (map xValue libs) / real (length libs))"
    and "distanceStandardDeviation (sample_aggregates libs)
         = Some (sqrt (sum_list (map (\<lambda>l. (xValue l - sum_list (map xValue libs) / real (length libs))\<^sup>2) libs)
                       / real (length libs)))"
  using assms fold_add [of xValue libs 0] fold_add [of "\<lambda>b. b" _ 0]
  by (simp_all add: sample_aggregates_def Let_def comp_def)

lemma makeLibrary_key:
  "eid \<in> fst ` set (metrics conf) \<Longrightarrow> \<exists>lib. makeLibrary conf eid = Some lib"
  by (cases "map_of (metrics conf) eid") (auto simp: makeLibrary_def map_of_eq_None_iff)

lemma scatter_data_returns: "\<exists>data samples. scatter_data conf = Inr (data, samples)"
proof -
  have t: "\<exists>t'. add_library conf v t = Inr t'" if "v \<in> set (sorted_experimentIDs conf)" for v t
    using makeLibrary_key [of v conf] that
    by (auto simp: add_library_def sorted_experimentIDs_def)
  obtain st where "for_each (add_library conf) (sorted_experimentIDs conf) ([], []) = Inr st"
    using for_each_total [where body = "add_library conf" and vs = "sorted_experimentIDs conf"
        and s = "([], [])"] t by blast
  then show ?thesis by (simp add: scatter_data_def bind_def)
qed

text \<open>
  Claim C5. Every entry of \<open>samples\<close> that the scatter plot computes holds the
  libraries of its sample, at least one, and its mean distance is the arithmetic mean
  of their x values, its standard deviation the square root of the sum of the squared
  deviations from that mean divided by the number \<open>N\<close> of the libraries (the
  population standard deviation). For the x values 10, 20, 30 these are 20 and the
  square root of 200/3, which lies between 8.164 and 8.166.
\<close>

theorem sample_mean_and_population_deviation:
  assumes "scatter_data conf = Inr (data, samples)" and "(S, info) \<in> set samples"
  shows "libraries info = filter (\<lambda>l. item_sample l = S) data \<and> libraries info \<noteq> []
       \<and> (let xs = map xValue (libraries info);
               n = real (length xs);
               mean = sum_list xs / n
           in meanDistance info = Some mean
            \<and> distanceStandardDeviation info
                = Some (sqrt (sum_list (map (\<lambda>x. (x - mean)\<^sup>2) xs) / n)))"
proof -
  obtain st where loop: "for_each (add_library conf) (sorted_experimentIDs conf) ([], []) = Inr st"
    and data: "data = fst st"
    and samples: "samples = map (\<lambda>p. (fst p, sample_aggregates (snd p))) (snd st)"
    using assms(1) by (auto simp: scatter_data_def bind_def split: sum.splits)
  have "grouped ([], [])" by (simp add: grouped_def)
  with loop have g: "grouped st"
    by (rule for_each_invariant) (rule add_library_grouped)
  obtain libs where entry: "(S, libs) \<in> set (snd st)" and info: "info = sample_aggregates libs"
    using assms(2) samples by auto
  have "distinct (map fst (snd st))"
    using g by (simp add: grouped_def)
  then have "map_of (snd st) S = Some libs"
    using entry by simp
  then have libs: "libs = filter (\<lambda>l. item_sample l = S) data" and ne: "libs \<noteq> []"
    using g by (auto simp: grouped_def data filter_empty_conv split: if_splits)
  show ?thesis
    using sample_aggregates_stats [OF ne] libs ne by (simp add: info Let_def comp_def)
qed

lemma one_sample_ids: "sorted_experimentIDs one_sample = [''a'', ''b'', ''c'']"
  unfolding sorted_experimentIDs_def one_sample_def example_configuration_def
  by code_simp

lemma sqrt_200_3: "8.164 < sqrt (200 / 3)" "sqrt (200 / 3) < 8.166"
proof -
  have "(8.164::real)\<^sup>2 < 200 / 3" by (simp add: power2_eq_square)
  then show "8.164 < sqrt (200 / 3)" by (rule real_less_rsqrt)
  have "(200::real) / 3 < 8.166\<^sup>2" by (simp add: power2_eq_square)
  then show "sqrt (200 / 3) < 8.166" by (intro real_less_lsqrt) simp_all
qed

theorem sample_mean_and_population_deviation_witness:
  "\<exists>data info. scatter_data one_sample = Inr (data, [(''s1'', info)])
      \<and> (''s1'', info) \<in> set [(''s1'', info)]
      \<and> map xValue (libraries info) = [10, 20, 30]
      \<and> meanDistance info = Some 20
      \<and> distanceStandardDeviation info = Some (sqrt (200 / 3))
      \<and> 8.164 < sqrt (200 / 3) \<and> sqrt (200 / 3) < 8.166"
proof -
  define D where "D = [the (makeLibrary one_sample ''a''), the (makeLibrary one_sample ''b''),
    the (makeLibrary one_sample ''c'')]"
  have x: "map xValue D = [10, 20, 30]" "D \<noteq> []"
    by (simp_all add: D_def makeLibrary_def one_sample_def example_configuration_def
        example_experiment_def)
  have e: "scatter_data one_sample = Inr (D, [(''s1'', sample_aggregates D)])"
    unfolding scatter_data_def one_sample_ids
    by (simp add: bind_def add_library_def makeLibrary_def one_sample_def D_def
        example_configuration_def example_experiment_def sample_of_def or_else_def)
  have m: "(''s1'', sample_aggregates D) \<in> set [(''s1'', sample_aggregates D)]" by simp
  have l: "libraries (sample_aggregates D) = D"
    by (simp add: sample_aggregates_def Let_def)
  have "meanDistance (sample_aggregates D) = Some 20
      \<and> distanceStandardDeviation (sample_aggregates D) = Some (sqrt (200 / 3))"
    using sample_mean_and_population_deviation [OF e m]
    by (simp add: l x Let_def)
  then show ?thesis using e m l x sqrt_200_3 by auto
qed

section \<open>Properties of the fragment length plot\<close>

lemma for_each_Inr_each:
  "for_each body vs s = Inr s' \<Longrightarrow> v \<in> set vs \<Longrightarrow> \<exists>t t'. body v t = Inr t'"
proof (induction vs arbitrary: s)
  case Nil
  then show ?case by simp
next
  case (Cons a vs)
  from Cons.prems(1) obtain t where t: "body a s = Inr t" and r: "for_each body vs t = Inr s'"
    by (auto simp: bind_def split: sum.splits)
  show ?case
  proof (cases "v = a")
    case True
    then show ?thesis using t by blast
  next
    case False
    then show ?thesis using Cons.IH [OF r] Cons.prems(2) by simp
  qed
qed

lemma not_Inr_TypeError: "(\<nexists>v. r = Inr v) \<Longrightarrow> r = Inl TypeError"
  by (cases r) (auto intro: error.exhaust)

lemma resample_step_Inr:
  "(\<exists>t'. resample_step resolution counts fl t = Inr t') = (fl < length counts)"
  by (auto simp: resample_step_def fraction_at_def bind_def Let_def)

lemma resample_returns_iff:
  "(\<exists>s. resample resolution counts maxLen y0 = Inr s)
   = (case maxLen of None \<Rightarrow> True | Some n \<Rightarrow> n \<le> length counts)"
proof (cases maxLen)
  case None
  then show ?thesis by (simp add: resample_def fragment_lengths_def)
next
  case (Some n)
  show ?thesis
  proof (cases "n \<le> length counts")
    case True
    have "\<exists>t'. resample_step resolution counts v t = Inr t'" if "v \<in> set [0..<n]" for v t
      using that True by (simp add: resample_step_Inr)
    then have "\<exists>s. for_each (resample_step resolution counts) [0..<n]
                  \<lparr>acc = 0, acc_yMax = y0, acc_line = []\<rparr> = Inr s"
      by (rule for_each_total)
    then show ?thesis using True Some by (simp add: resample_def fragment_lengths_def)
  next
    case False
    then have v: "length counts \<in> set [0..<n]" by simp
    have "\<not> (\<exists>s. for_each (resample_step resolution counts) [0..<n]
                  \<lparr>acc = 0, acc_yMax = y0, acc_line = []\<rparr> = Inr s)"
    proof
      assume "\<exists>s. for_each (resample_step resolution counts) [0..<n]
                  \<lparr>acc = 0, acc_yMax = y0, acc_line = []\<rparr> = Inr s"
      then obtain s where "for_each (resample_step resolution counts) [0..<n]
                  \<lparr>acc = 0, acc_yMax = y0, acc_line = []\<rparr> = Inr s" ..
      from for_each_Inr_each [OF this v]
      show False using resample_step_Inr [of resolution counts "length counts"] by auto
    qed
    then show ?thesis using False Some by (simp add: resample_def fragment_lengths_def)
  qed
qed

lemma resample_loop_x:
  "for_each (resample_step resolution counts) vs s0 = Inr s \<Longrightarrow>
   map point_x (acc_line s)
   = map point_x (acc_line s0) @ filter (\<lambda>fl. resolution \<noteq> 0 \<and> int fl mod resolution = 0) vs"
proof (induction vs arbitrary: s0)
  case Nil
  then show ?case by simp
next
  case (Cons v vs)
  from Cons.prems obtain t where t: "resample_step resolution counts v s0 = Inr t"
    and r: "for_each (resample_step resolution counts) vs t = Inr s"
    by (auto simp: bind_def split: sum.splits)
  have "map point_x (acc_line t)
      = map point_x (acc_line s0) @ filter (\<lambda>fl. resolution \<noteq> 0 \<and> int fl mod resolution = 0) [v]"
    using t by (auto simp: resample_step_def bind_def Let_def split: sum.splits if_splits)
  then show ?case using Cons.IH [OF r] by simp
qed

lemma resample_x:
  "resample resolution counts maxLen y0 = Inr s \<Longrightarrow>
   map point_x (acc_line s)
   = filter (\<lambda>fl. resolution \<noteq> 0 \<and> int fl mod resolution = 0) (fragment_lengths maxLen)"
  unfolding resample_def by (drule resample_loop_x) simp

lemma div_add_small: "x < r \<Longrightarrow> (r * q + x) div (r::nat) = q"
  by (rule div_nat_eqI) simp_all

lemma ws_dvd:
  assumes "0 < r" and "r dvd n"
  shows "window_start r n = n + 1 - r"
proof -
  from assms(2) obtain k where n: "n = r * k" ..
  show ?thesis
  proof (cases k)
    case 0
    then show ?thesis using assms(1) n by (simp add: window_start_def)
  next
    case (Suc m)
    then have "n - 1 = r * m + (r - 1)" using n assms(1) by simp
    moreover have "(r * m + (r - 1)) div r = m" using assms(1) by (intro div_add_small) simp
    ultimately have "(n - 1) div r = m" by simp
    then show ?thesis using n Suc assms(1) by (simp add: window_start_def)
  qed
qed

lemma ws_dvd_next: "r dvd n \<Longrightarrow> window_start r (Suc n) = Suc n"
  by (simp add: window_start_def)

lemma ws_not_dvd:
  assumes "0 < r" and "\<not> r dvd n"
  shows "window_start r (Suc n) = window_start r n"
proof -
  have pos: "0 < n mod r" "0 < n"
    using assms(2) by (auto simp: dvd_eq_mod_eq_0 intro: Nat.gr0I)
  have "n = r * (n div r) + n mod r" by simp
  then have "n - 1 = r * (n div r) + (n mod r - 1)"
    using pos by linarith
  moreover have "(r * (n div r) + (n mod r - 1)) div r = n div r"
    using assms(1) pos by (intro div_add_small) (simp add: less_imp_diff_less)
  ultimately have "(n - 1) div r = n div r" by simp
  then show ?thesis using pos by (simp add: window_start_def)
qed

lemma ws_le: "window_start r n \<le> n"
proof (cases "n = 0")
  case True
  then show ?thesis by (simp add: window_start_def)
next
  case False
  have "((n - 1) div r) * r \<le> n - 1" by simp
  then have "((n - 1) div r) * r + 1 \<le> n" using False by linarith
  then show ?thesis using False by (simp add: window_start_def)
qed

lemma for_each_snoc:
  "for_each body (vs @ [v]) s = bind (for_each body vs s) (body v)"
proof (induction vs arbitrary: s)
  case Nil
  then show ?case by (simp add: bind_def split: sum.splits)
next
  case (Cons a vs)
  then show ?case by (simp add: bind_def split: sum.splits)
qed

lemma js_remainder_zero: "0 < r \<Longrightarrow> (int r \<noteq> 0 \<and> int n mod int r = 0) = (r dvd n)"
proof -
  assume "0 < r"
  have "(int n mod int r = 0) = (int (n mod r) = 0)" by (simp add: zmod_int)
  also have "\<dots> = (r dvd n)" by (simp add: dvd_eq_mod_eq_0)
  finally show ?thesis using \<open>0 < r\<close> by simp
qed

lemma resample_loop_windows:
  assumes "0 < r" and "n \<le> length counts"
  shows "\<exists>s. for_each (resample_step (int r) counts) [0..<n]
               \<lparr>acc = 0, acc_yMax = y0, acc_line = []\<rparr> = Inr s
           \<and> acc s = (\<Sum>j\<leftarrow>[window_start r n..<n]. snd (counts ! j))
           \<and> acc_line s = map (\<lambda>fl. \<lparr>point_x = fl, point_y = trailing_mean r counts fl\<rparr>)
                             (filter (\<lambda>fl. r dvd fl) [0..<n])"
  using assms(2)
proof (induction n)
  case 0
  then show ?case by (simp add: window_start_def)
next
  case (Suc n)
  then obtain t where t: "for_each (resample_step (int r) counts) [0..<n]
               \<lparr>acc = 0, acc_yMax = y0, acc_line = []\<rparr> = Inr t"
    and a: "acc t = (\<Sum>j\<leftarrow>[window_start r n..<n]. snd (counts ! j))"
    and l: "acc_line t = map (\<lambda>fl. \<lparr>point_x = fl, point_y = trailing_mean r counts fl\<rparr>)
                             (filter (\<lambda>fl. r dvd fl) [0..<n])"
    by auto
  have f: "fraction_at counts n = Inr (snd (counts ! n))"
    using Suc.prems by (simp add: fraction_at_def)
  have "[window_start r n..<Suc n] = [window_start r n..<n] @ [n]"
    using ws_le [of r n] by simp
  then have sum': "acc t + snd (counts ! n) = (\<Sum>j\<leftarrow>[window_start r n..<Suc n]. snd (counts ! j))"
    by (simp add: a)
  have run: "for_each (resample_step (int r) counts) [0..<Suc n]
               \<lparr>acc = 0, acc_yMax = y0, acc_line = []\<rparr> = resample_step (int r) counts n t"
    by (simp add: for_each_snoc t bind_def)
  show ?case
  proof (cases "r dvd n")
    case True
    have c: "int r \<noteq> 0 \<and> int n mod int r = 0"
      using True js_remainder_zero [OF assms(1), of n] by simp
    have m: "(acc t + snd (counts ! n)) / real r = trailing_mean r counts n"
      unfolding sum' trailing_mean_def ws_dvd [OF assms(1) True] by simp
    have step: "resample_step (int r) counts n t
        = Inr \<lparr>acc = 0,
               acc_yMax = (if trailing_mean r counts n > acc_yMax t then trailing_mean r counts n
                           else acc_yMax t),
               acc_line = acc_line t @ [\<lparr>point_x = n, point_y = trailing_mean r counts n\<rparr>]\<rparr>"
      using c m by (simp add: resample_step_def f bind_def Let_def)
    show ?thesis
      unfolding run step using True l by (simp add: ws_dvd_next)
  next
    case False
    have c: "int n mod int r \<noteq> 0"
      using False js_remainder_zero [OF assms(1), of n] assms(1) by simp
    have step: "resample_step (int r) counts n t = Inr (t\<lparr>acc := acc t + snd (counts ! n)\<rparr>)"
      using c by (simp add: resample_step_def f bind_def Let_def)
    show ?thesis
      unfolding run step using False l sum' by (simp add: ws_not_dvd [OF assms(1) False])
  qed
qed

lemma resample_windows:
  assumes "0 < r" and "n \<le> length counts"
  shows "\<exists>s. resample (int r) counts (Some n) y0 = Inr s
           \<and> acc_line s = map (\<lambda>fl. \<lparr>point_x = fl, point_y = trailing_mean r counts fl\<rparr>)
                             (filter (\<lambda>fl. r dvd fl) [0..<n])"
  using resample_loop_windows [OF assms, of y0]
  by (auto simp: resample_def fragment_lengths_def)

lemma upt_4: "[0..<4] = [0, 1, 2, 3]"
  by code_simp

lemma resample_block:
  "resample 2 block_counts (Some 4) 0
   = Inr \<lparr>acc = 8, acc_yMax = 5,
          acc_line = [\<lparr>point_x = 0, point_y = 1\<rparr>, \<lparr>point_x = 2, point_y = 5\<rparr>]\<rparr>"
  "resample 2 block_counts (Some 4) 5
   = Inr \<lparr>acc = 8, acc_yMax = 5,
          acc_line = [\<lparr>point_x = 0, point_y = 1\<rparr>, \<lparr>point_x = 2, point_y = 5\<rparr>]\<rparr>"
  by (simp_all add: resample_def fragment_lengths_def upt_4 resample_step_def fraction_at_def
      bind_def Let_def block_counts_def)

text \<open>
  Claim C1. On the fractions 2, 4, 6, 8 at resolution 2 the fragment length plot
  emits the points \<open>(0, 1)\<close> and \<open>(2, 5)\<close>, not the block means \<open>(0, 3)\<close> and
  \<open>(2, 7)\<close> of the windows that start at 0 and at 2: the point at \<open>x\<close> holds the sum of
  the fractions at \<open>x - resolution + 1, ..., x\<close> divided by the resolution (lemma
  \<open>resample_windows\<close>), so the first point is a single fraction divided by the
  resolution and the fractions after the last multiple of the resolution are dropped.
\<close>

theorem block_mean_example:
  "\<exists>d s. plotFragmentLength block_example (Some 2) = Inr d \<and> series d ''A'' = Some s
      \<and> line s = [\<lparr>point_x = 0, point_y = 1\<rparr>, \<lparr>point_x = 2, point_y = 5\<rparr>]
      \<and> line s \<noteq> [\<lparr>point_x = 0, point_y = 3\<rparr>, \<lparr>point_x = 2, point_y = 7\<rparr>]"
proof -
  have ids: "sorted_experimentIDs block_example = [''A'']"
    by (simp add: sorted_experimentIDs_def block_example_def example_configuration_def)
  have e: "get_experiment block_example ''A'' = Inr block_experiment"
    by (simp add: get_experiment_def block_example_def example_configuration_def)
  have c: "fragment_length_counts block_experiment = block_counts"
    by (simp add: block_experiment_def example_experiment_def)
  have n: "length block_counts = 4"
    by (simp add: block_counts_def)
  have r: "fragment_length_reference block_example
         = Some \<lparr>source = ''reference'', distribution = block_counts\<rparr>"
    by (simp add: block_example_def example_configuration_def)
  show ?thesis
    unfolding plotFragmentLength_def ids Let_def
    by (simp add: e c r n bind_def d3_min_def fragment_length_series_def resample_block)
qed

lemma lengths_loop:
  "set ids \<subseteq> fst ` set (metrics conf) \<Longrightarrow>
   for_each (\<lambda>eid counts. bind (get_experiment conf eid)
                (\<lambda>m. Inr (counts @ [length (fragment_length_counts m)]))) ids acc0
   = Inr (acc0 @ map (\<lambda>eid. length (fragment_length_counts (the (map_of (metrics conf) eid)))) ids)"
proof (induction ids arbitrary: acc0)
  case Nil
  then show ?case by simp
next
  case (Cons i ids)
  then obtain e where "map_of (metrics conf) i = Some e"
    by (cases "map_of (metrics conf) i") (auto simp: map_of_eq_None_iff)
  then show ?case using Cons by (simp add: bind_def get_experiment_def)
qed

lemma set_histogram_lengths:
  assumes "distinct (map fst (metrics conf))"
  shows "set (histogram_lengths conf)
       = (\<lambda>p. length (fragment_length_counts (snd p))) ` set (metrics conf)"
proof -
  have "(\<lambda>eid. length (fragment_length_counts (the (map_of (metrics conf) eid)))) ` fst ` set (metrics conf)
      = (\<lambda>p. length (fragment_length_counts (snd p))) ` set (metrics conf)"
    using assms by (force simp: image_iff)
  then show ?thesis
    by (simp add: histogram_lengths_def set_sorted_experimentIDs)
qed

lemma d3_min_histogram_lengths:
  assumes "distinct (map fst (metrics conf))"
  shows "d3_min (histogram_lengths conf)
       = (if metrics conf = [] then None
          else Some (Min ((\<lambda>p. length (fragment_length_counts (snd p))) ` set (metrics conf))))"
proof (cases "metrics conf = []")
  case True
  then show ?thesis
    by (simp add: histogram_lengths_def sorted_experimentIDs_def d3_min_def)
next
  case False
  moreover have "length (histogram_lengths conf) = length (metrics conf)"
    by (simp add: histogram_lengths_def sorted_experimentIDs_def)
  ultimately have "histogram_lengths conf \<noteq> []"
    by (metis length_0_conv)
  then show ?thesis
    using False by (simp add: d3_min_Min set_histogram_lengths [OF assms])
qed

lemma fragment_loop:
  assumes "set ids \<subseteq> fst ` set (metrics conf)"
    and "\<forall>eid \<in> set ids. \<forall>e. get_experiment conf eid = Inr e \<longrightarrow>
           (case maxLen of None \<Rightarrow> True | Some n \<Rightarrow> n \<le> length (fragment_length_counts e))"
  shows "\<exists>d. for_each (fragment_length_series conf resolution maxLen) ids r = Inr d
           \<and> xMax d = xMax r \<and> reference_series d = reference_series r
           \<and> (\<forall>eid. (eid \<in> set ids \<longrightarrow>
                      (\<exists>e s st y0. get_experiment conf eid = Inr e \<and> series d eid = Some s
                           \<and> resample resolution (fragment_length_counts e) maxLen y0 = Inr st
                           \<and> line s = acc_line st))
                  \<and> (eid \<notin> set ids \<longrightarrow> series d eid = series r eid))"
  using assms
proof (induction ids arbitrary: r)
  case Nil
  then show ?case by simp
next
  case (Cons i ids)
  obtain e where e: "get_experiment conf i = Inr e"
    using Cons.prems(1) get_experiment_key by fastforce
  have "case maxLen of None \<Rightarrow> True | Some n \<Rightarrow> n \<le> length (fragment_length_counts e)"
    using Cons.prems(2) e by simp
  then obtain st where st: "resample resolution (fragment_length_counts e) maxLen (yMax r) = Inr st"
    using resample_returns_iff [of resolution "fragment_length_counts e" maxLen "yMax r"] by blast
  define item where "item = \<lparr>experimentID = i,
     item_library = Some (or_else (lib_library (library e)) (name e)),
     item_description = lib_description (library e), item_sample = sample_of e, line = acc_line st\<rparr>"
  define r' where "r' = r\<lparr>series := (series r)(i \<mapsto> item), yMax := acc_yMax st\<rparr>"
  have step: "fragment_length_series conf resolution maxLen i r = Inr r'"
    by (simp add: fragment_length_series_def e st bind_def r'_def item_def)
  have prems: "set ids \<subseteq> fst ` set (metrics conf)"
    "\<forall>eid \<in> set ids. \<forall>e. get_experiment conf eid = Inr e \<longrightarrow>
           (case maxLen of None \<Rightarrow> True | Some n \<Rightarrow> n \<le> length (fragment_length_counts e))"
    using Cons.prems by auto
  obtain d where d: "for_each (fragment_length_series conf resolution maxLen) ids r' = Inr d"
    and same: "xMax d = xMax r'" "reference_series d = reference_series r'"
    and known: "\<And>eid. eid \<in> set ids \<Longrightarrow>
           \<exists>e s st y0. get_experiment conf eid = Inr e \<and> series d eid = Some s
              \<and> resample resolution (fragment_length_counts e) maxLen y0 = Inr st
              \<and> line s = acc_line st"
    and other: "\<And>eid. eid \<notin> set ids \<Longrightarrow> series d eid = series r' eid"
    using Cons.IH [where r = r', OF prems] by blast
  have run: "for_each (fragment_length_series conf resolution maxLen) (i # ids) r = Inr d"
    by (simp add: step d bind_def)
  have head: "\<exists>e s st y0. get_experiment conf i = Inr e \<and> series d i = Some s
              \<and> resample resolution (fragment_length_counts e) maxLen y0 = Inr st
              \<and> line s = acc_line st"
  proof (cases "i \<in> set ids")
    case True
    then show ?thesis by (rule known)
  next
    case False
    then have "series d i = Some item"
      using other by (simp add: r'_def)
    moreover have "line item = acc_line st"
      by (simp add: item_def)
    ultimately show ?thesis using e st by blast
  qed
  have rest: "eid \<notin> set (i # ids) \<Longrightarrow> series d eid = series r eid" for eid
    using other [of eid] by (simp add: r'_def)
  have same': "xMax d = xMax r" "reference_series d = reference_series r"
    using same by (simp_all add: r'_def)
  show ?case using run head known rest same' by auto
qed

lemma d3_min_le:
  assumes "d3_min vs = Some n" and "v \<in> set vs"
  shows "n \<le> v"
proof -
  have "vs \<noteq> []" using assms(2) by auto
  then have "n = Min (set vs)" using assms(1) by (simp add: d3_min_Min)
  then show ?thesis using assms(2) by simp
qed

lemma histogram_fits:
  assumes "eid \<in> set (sorted_experimentIDs conf)" and "get_experiment conf eid = Inr e"
  shows "case d3_min (histogram_lengths conf) of None \<Rightarrow> True
         | Some n \<Rightarrow> n \<le> length (fragment_length_counts e)"
proof (cases "d3_min (histogram_lengths conf)")
  case None
  then show ?thesis by simp
next
  case (Some n)
  have "map_of (metrics conf) eid = Some e"
    using assms(2) by (simp add: get_experiment_def split: option.splits)
  then have "length (fragment_length_counts e) \<in> set (histogram_lengths conf)"
    using assms(1) by (force simp: histogram_lengths_def)
  then show ?thesis using d3_min_le [OF Some] Some by simp
qed

lemma plotFragmentLength_no_reference:
  "fragment_length_reference conf = None \<Longrightarrow> plotFragmentLength conf resolutionSelect = Inl TypeError"
  using lengths_loop [of "sorted_experimentIDs conf" conf "[]"]
  by (simp add: plotFragmentLength_def Let_def bind_def set_sorted_experimentIDs)

lemma plotFragmentLength_with_reference:
  fixes conf :: configuration and resolutionSelect :: "int option"
  assumes "fragment_length_reference conf = Some ref"
  defines "maxLen \<equiv> d3_min (histogram_lengths conf)"
  defines "resolution \<equiv> (case resolutionSelect of None \<Rightarrow> 10 | Some r \<Rightarrow> r)"
  shows "if (case maxLen of None \<Rightarrow> True | Some n \<Rightarrow> n \<le> length (distribution ref))
         then \<exists>d st y0. plotFragmentLength conf resolutionSelect = Inr d
                \<and> xMax d = maxLen
                \<and> resample resolution (distribution ref) maxLen y0 = Inr st
                \<and> reference_series d
                    = Some \<lparr>reference_source = source ref, reference_line = acc_line st\<rparr>
                \<and> (\<forall>eid. (eid \<in> fst ` set (metrics conf) \<longrightarrow>
                       (\<exists>e s st y0. get_experiment conf eid = Inr e \<and> series d eid = Some s
                           \<and> resample resolution (fragment_length_counts e) maxLen y0 = Inr st
                           \<and> line s = acc_line st))
                     \<and> (eid \<notin> fst ` set (metrics conf) \<longrightarrow> series d eid = None))
         else plotFragmentLength conf resolutionSelect = Inl TypeError"
proof -
  define result :: "real plot_dataset" where "result = \<lparr>series = Map.empty,
      reference_series = Some \<lparr>reference_source = source ref, reference_line = []\<rparr>,
      xMax = maxLen, yMax = 0,
      xLabel = ''Fragment length (bp)'', yLabel = ''Fraction of all reads''\<rparr>"
  have lens: "for_each (\<lambda>eid counts. bind (get_experiment conf eid)
                (\<lambda>m. Inr (counts @ [length (fragment_length_counts m)])))
                (sorted_experimentIDs conf) [] = Inr (histogram_lengths conf)"
    using lengths_loop [of "sorted_experimentIDs conf" conf "[]"]
    by (simp add: set_sorted_experimentIDs histogram_lengths_def)
  have unfold: "plotFragmentLength conf resolutionSelect
      = bind (for_each (fragment_length_series conf resolution maxLen)
                (sorted_experimentIDs conf) result)
          (\<lambda>result'. bind (resample resolution (distribution ref) maxLen (yMax result'))
             (\<lambda>s. Inr (result'
                \<lparr>reference_series :=
                   Some \<lparr>reference_source = source ref, reference_line = acc_line s\<rparr>,
                 yMax := acc_yMax s\<rparr>)))"
    unfolding plotFragmentLength_def Let_def lens
    by (simp add: bind_def assms(1) maxLen_def resolution_def result_def)
  have fits: "\<forall>eid \<in> set (sorted_experimentIDs conf). \<forall>e. get_experiment conf eid = Inr e \<longrightarrow>
           (case maxLen of None \<Rightarrow> True | Some n \<Rightarrow> n \<le> length (fragment_length_counts e))"
    unfolding maxLen_def using histogram_fits by blast
  have keys: "set (sorted_experimentIDs conf) \<subseteq> fst ` set (metrics conf)"
    by (simp add: set_sorted_experimentIDs)
  obtain d0 where d0: "for_each (fragment_length_series conf resolution maxLen)
                          (sorted_experimentIDs conf) result = Inr d0"
    and x0: "xMax d0 = xMax result"
    and s0: "\<And>eid. eid \<in> set (sorted_experimentIDs conf) \<Longrightarrow>
           \<exists>e s st y0. get_experiment conf eid = Inr e \<and> series d0 eid = Some s
              \<and> resample resolution (fragment_length_counts e) maxLen y0 = Inr st
              \<and> line s = acc_line st"
    and n0: "\<And>eid. eid \<notin> set (sorted_experimentIDs conf) \<Longrightarrow> series d0 eid = series result eid"
    using fragment_loop [OF keys fits, of resolution result] by blast
  show ?thesis
  proof (cases "case maxLen of None \<Rightarrow> True | Some n \<Rightarrow> n \<le> length (distribution ref)")
    case True
    then obtain st where st: "resample resolution (distribution ref) maxLen (yMax d0) = Inr st"
      using resample_returns_iff [of resolution "distribution ref" maxLen "yMax d0"] by blast
    define d where "d = d0\<lparr>reference_series :=
         Some \<lparr>reference_source = source ref, reference_line = acc_line st\<rparr>, yMax := acc_yMax st\<rparr>"
    have run: "plotFragmentLength conf resolutionSelect = Inr d"
      by (simp add: unfold d0 st bind_def d_def)
    have "xMax d = maxLen"
      using x0 by (simp add: d_def result_def)
    moreover have "reference_series d
                    = Some \<lparr>reference_source = source ref, reference_line = acc_line st\<rparr>"
      by (simp add: d_def)
    moreover have "\<exists>e s st y0. get_experiment conf eid = Inr e \<and> series d eid = Some s
              \<and> resample resolution (fragment_length_counts e) maxLen y0 = Inr st
              \<and> line s = acc_line st" if "eid \<in> fst ` set (metrics conf)" for eid
      using s0 [of eid] that by (simp add: d_def set_sorted_experimentIDs)
    moreover have "series d eid = None" if "eid \<notin> fst ` set (metrics conf)" for eid
      using n0 [of eid] that by (simp add: d_def set_sorted_experimentIDs result_def)
    ultimately show ?thesis using True run st by auto
  next
    case False
    then have "\<nexists>st. resample resolution (distribution ref) maxLen (yMax d0) = Inr st"
      using resample_returns_iff [of resolution "distribution ref" maxLen "yMax d0"] by blast
    then have "resample resolution (distribution ref) maxLen (yMax d0) = Inl TypeError"
      by (rule not_Inr_TypeError)
    then show ?thesis using False by (simp add: unfold d0 bind_def)
  qed
qed

lemma plotFragmentLength_Inr:
  assumes "plotFragmentLength conf resolutionSelect = Inr d"
  defines "maxLen \<equiv> d3_min (histogram_lengths conf)"
  defines "xs \<equiv> filter (\<lambda>fl. (case resolutionSelect of None \<Rightarrow> 10 | Some r \<Rightarrow> r) \<noteq> 0
                         \<and> int fl mod (case resolutionSelect of None \<Rightarrow> 10 | Some r \<Rightarrow> r) = 0)
                 (fragment_lengths maxLen)"
  shows "xMax d = maxLen"
    and "\<exists>ref. reference_series d = Some ref \<and> map point_x (reference_line ref) = xs"
    and "eid \<in> fst ` set (metrics conf) \<Longrightarrow> \<exists>s. series d eid = Some s \<and> map point_x (line s) = xs"
    and "eid \<notin> fst ` set (metrics conf) \<Longrightarrow> series d eid = None"
proof -
  obtain ref where ref: "fragment_length_reference conf = Some ref"
    using assms(1) plotFragmentLength_no_reference [of conf resolutionSelect]
    by (cases "fragment_length_reference conf") auto
  note r = plotFragmentLength_with_reference [OF ref, of resolutionSelect, folded maxLen_def]
  have c: "case maxLen of None \<Rightarrow> True | Some n \<Rightarrow> n \<le> length (distribution ref)"
  proof (rule ccontr)
    assume "\<not> ?thesis"
    with r have "plotFragmentLength conf resolutionSelect = Inl TypeError" by (simp only: if_False)
    with assms(1) show False by simp
  qed
  note t = r [unfolded if_P [OF c]]
  from t obtain d' st y0 where all:
    "plotFragmentLength conf resolutionSelect = Inr d'
     \<and> xMax d' = maxLen
     \<and> resample (case resolutionSelect of None \<Rightarrow> 10 | Some r \<Rightarrow> r) (distribution ref) maxLen y0 = Inr st
     \<and> reference_series d' = Some \<lparr>reference_source = source ref, reference_line = acc_line st\<rparr>
     \<and> (\<forall>eid. (eid \<in> fst ` set (metrics conf) \<longrightarrow>
                       (\<exists>e s st y0. get_experiment conf eid = Inr e \<and> series d' eid = Some s
                           \<and> resample (case resolutionSelect of None \<Rightarrow> 10 | Some r \<Rightarrow> r)
                                (fragment_length_counts e) maxLen y0 = Inr st
                           \<and> line s = acc_line st))
                     \<and> (eid \<notin> fst ` set (metrics conf) \<longrightarrow> series d' eid = None))"
    by (elim exE) (rule that)
  note d' = all [THEN conjunct1]
    and x' = all [THEN conjunct2, THEN conjunct1]
    and st = all [THEN conjunct2, THEN conjunct2, THEN conjunct1]
    and rs' = all [THEN conjunct2, THEN conjunct2, THEN conjunct2, THEN conjunct1]
    and ser' = all [THEN conjunct2, THEN conjunct2, THEN conjunct2, THEN conjunct2]
  have "d' = d" using d' assms(1) by simp
  note x = x' [unfolded this] and rs = rs' [unfolded this] and ser = ser' [unfolded this]
  show "xMax d = maxLen" by (rule x)
  show "\<exists>ref. reference_series d = Some ref \<and> map point_x (reference_line ref) = xs"
    using rs resample_x [OF st] by (simp add: xs_def)
  show "\<exists>s. series d eid = Some s \<and> map point_x (line s) = xs"
    if key: "eid \<in> fst ` set (metrics conf)"
  proof -
    from ser [THEN spec, THEN conjunct1, THEN mp, OF key]
    obtain e s st' y0' where k: "get_experiment conf eid = Inr e \<and> series d eid = Some s
      \<and> resample (case resolutionSelect of None \<Rightarrow> 10 | Some r \<Rightarrow> r)
              (fragment_length_counts e) maxLen y0' = Inr st'
      \<and> line s = acc_line st'"
      by (elim exE) (rule that)
    have "map point_x (acc_line st') = xs"
      unfolding xs_def by (rule resample_x [OF k [THEN conjunct2, THEN conjunct2, THEN conjunct1]])
    then show ?thesis using k by simp
  qed
  show "series d eid = None" if "eid \<notin> fst ` set (metrics conf)"
    using ser [THEN spec, THEN conjunct2, THEN mp, OF that] .
qed

text \<open>
  The data that the fragment length plot returns, when it returns: \<open>xMax\<close> is the
  least length of the histograms, and all lines have their points at the multiples of
  the resolution below it.
\<close>

lemma plotted_length_if_returned:
  assumes "distinct (map fst (metrics conf))" and "metrics conf \<noteq> []"
    and "plotFragmentLength conf resolutionSelect = Inr d"
  shows "let M = Min ((\<lambda>p. length (fragment_length_counts (snd p))) ` set (metrics conf));
             resolution = (case resolutionSelect of None \<Rightarrow> 10 | Some r \<Rightarrow> r);
             xs = filter (\<lambda>fl. resolution \<noteq> 0 \<and> int fl mod resolution = 0) [0..<M]
         in xMax d = Some M
          \<and> (\<forall>eid \<in> fst ` set (metrics conf).
                \<exists>s. series d eid = Some s \<and> map point_x (line s) = xs)
          \<and> (\<forall>eid s p. series d eid = Some s \<and> p \<in> set (line s) \<longrightarrow> point_x p < M)
          \<and> (\<exists>ref. reference_series d = Some ref \<and> map point_x (reference_line ref) = xs
                \<and> (\<forall>p \<in> set (reference_line ref). point_x p < M))"
proof -
  define M where "M = Min ((\<lambda>p. length (fragment_length_counts (snd p))) ` set (metrics conf))"
  define resolution where "resolution = (case resolutionSelect of None \<Rightarrow> 10 | Some r \<Rightarrow> r)"
  define xs where "xs = filter (\<lambda>fl. resolution \<noteq> 0 \<and> int fl mod resolution = 0) [0..<M]"
  have m: "d3_min (histogram_lengths conf) = Some M"
    using d3_min_histogram_lengths [OF assms(1)] assms(2) by (simp add: M_def)
  note r = plotFragmentLength_Inr [OF assms(3), unfolded m fragment_lengths_def option.case,
      folded resolution_def, folded xs_def]
  have bound: "point_x p < M" if "map point_x ps = xs" "p \<in> set ps" for p ps
  proof -
    have "point_x p \<in> set xs" using that by (metis image_eqI list.set_map)
    then show ?thesis by (simp add: xs_def)
  qed
  have a: "xMax d = Some M" by (rule r(1))
  have b: "\<forall>eid \<in> fst ` set (metrics conf). \<exists>s. series d eid = Some s \<and> map point_x (line s) = xs"
    using r(3) by blast
  have c: "\<forall>eid s p. series d eid = Some s \<and> p \<in> set (line s) \<longrightarrow> point_x p < M"
  proof (intro allI impI)
    fix eid s p
    assume h: "series d eid = Some s \<and> p \<in> set (line s)"
    then have "eid \<in> fst ` set (metrics conf)" using r(4) [of eid] by auto
    then have "map point_x (line s) = xs" using r(3) [of eid] h by auto
    then show "point_x p < M" using h bound by blast
  qed
  have e: "\<exists>ref. reference_series d = Some ref \<and> map point_x (reference_line ref) = xs
                \<and> (\<forall>p \<in> set (reference_line ref). point_x p < M)"
    using r(2) bound by blast
  show ?thesis
    unfolding Let_def using a b c e
    by (simp only: M_def [symmetric] resolution_def [symmetric] xs_def [symmetric])
qed

lemma length_uniform_counts: "length (uniform_counts n) = n"
  by (simp add: uniform_counts_def)

text \<open>
  Claim C6, amended. For a document with at least one experiment and a
  \<open>fragment_length_reference\<close>, let \<open>M\<close> be the least length of the histograms of the
  experiments. If the reference distribution has at least \<open>M\<close> entries, the fragment
  length plot returns its data, \<open>xMax\<close> is \<open>M\<close>, and the series of every experiment
  and the reference series have their points at exactly the multiples of the
  resolution below \<open>M\<close>, so every x value is below \<open>M\<close>; with histograms of 150 and
  120 entries, in either order, \<open>M\<close> is 120. If the reference distribution is
  shorter than \<open>M\<close>, the plot throws a \<open>TypeError\<close>.
\<close>

theorem plotted_length_is_shortest_histogram:
  assumes "distinct (map fst (metrics conf))" and "metrics conf \<noteq> []"
    and "fragment_length_reference conf = Some ref"
  shows "let M = Min ((\<lambda>p. length (fragment_length_counts (snd p))) ` set (metrics conf));
             resolution = (case resolutionSelect of None \<Rightarrow> 10 | Some r \<Rightarrow> r);
             xs = filter (\<lambda>fl. resolution \<noteq> 0 \<and> int fl mod resolution = 0) [0..<M]
         in if M \<le> length (distribution ref)
            then \<exists>d. plotFragmentLength conf resolutionSelect = Inr d
                   \<and> xMax d = Some M
                   \<and> (\<forall>eid \<in> fst ` set (metrics conf).
                         \<exists>s. series d eid = Some s \<and> map point_x (line s) = xs)
                   \<and> (\<forall>eid s p. series d eid = Some s \<and> p \<in> set (line s) \<longrightarrow> point_x p < M)
                   \<and> (\<exists>ref. reference_series d = Some ref \<and> map point_x (reference_line ref) = xs
                         \<and> (\<forall>p \<in> set (reference_line ref). point_x p < M))
            else plotFragmentLength conf resolutionSelect = Inl TypeError"
proof -
  define M where "M = Min ((\<lambda>p. length (fragment_length_counts (snd p))) ` set (metrics conf))"
  have m: "d3_min (histogram_lengths conf) = Some M"
    using d3_min_histogram_lengths [OF assms(1)] assms(2) by (simp add: M_def)
  note r = plotFragmentLength_with_reference [OF assms(3), of resolutionSelect,
      unfolded m option.case]
  show ?thesis
  proof (cases "M \<le> length (distribution ref)")
    case True
    from r [unfolded if_P [OF True]]
    obtain d where run: "plotFragmentLength conf resolutionSelect = Inr d"
      by (elim exE conjE) (rule that)
    note t = plotted_length_if_returned [OF assms(1,2) run, unfolded Let_def,
        folded M_def]
    have "\<exists>d. plotFragmentLength conf resolutionSelect = Inr d
                   \<and> xMax d = Some M
                   \<and> (\<forall>eid \<in> fst ` set (metrics conf).
                         \<exists>s. series d eid = Some s
                            \<and> map point_x (line s)
                              = filter (\<lambda>fl. (case resolutionSelect of None \<Rightarrow> 10 | Some r \<Rightarrow> r) \<noteq> 0
                                  \<and> int fl mod (case resolutionSelect of None \<Rightarrow> 10 | Some r \<Rightarrow> r) = 0)
                                  [0..<M])
                   \<and> (\<forall>eid s p. series d eid = Some s \<and> p \<in> set (line s) \<longrightarrow> point_x p < M)
                   \<and> (\<exists>ref. reference_series d = Some ref
                         \<and> map point_x (reference_line ref)
                           = filter (\<lambda>fl. (case resolutionSelect of None \<Rightarrow> 10 | Some r \<Rightarrow> r) \<noteq> 0
                                  \<and> int fl mod (case resolutionSelect of None \<Rightarrow> 10 | Some r \<Rightarrow> r) = 0)
                                  [0..<M]
                         \<and> (\<forall>p \<in> set (reference_line ref). point_x p < M))"
      using conjI [OF run t] by (rule exI)
    then show ?thesis
      unfolding Let_def M_def [symmetric] using True by (simp only: if_True)
  next
    case False
    from r [unfolded if_not_P [OF False]] show ?thesis
      unfolding Let_def M_def [symmetric] using False by (simp only: if_False)
  qed
qed

theorem plotted_length_is_shortest_histogram_witness:
  "distinct (map fst (metrics truncation_example)) \<and> metrics truncation_example \<noteq> []
   \<and> fragment_length_reference truncation_example
       = Some \<lparr>source = ''reference'', distribution = uniform_counts 150\<rparr>
   \<and> (\<exists>d. plotFragmentLength truncation_example None = Inr d
          \<and> xMax d = Some 120
          \<and> (\<forall>eid \<in> {''A'', ''B''}.
                \<exists>s. series d eid = Some s
                   \<and> map point_x (line s) = filter (\<lambda>fl. int fl mod 10 = 0) [0..<120])
          \<and> (\<forall>eid s p. series d eid = Some s \<and> p \<in> set (line s) \<longrightarrow> point_x p < 120)
          \<and> (\<exists>ref. reference_series d = Some ref
                \<and> map point_x (reference_line ref) = filter (\<lambda>fl. int fl mod 10 = 0) [0..<120]
                \<and> (\<forall>p \<in> set (reference_line ref). point_x p < 120)))
   \<and> distinct (map fst (metrics swapped_example)) \<and> metrics swapped_example \<noteq> []
   \<and> fragment_length_reference swapped_example
       = Some \<lparr>source = ''reference'', distribution = uniform_counts 150\<rparr>
   \<and> (\<exists>d. plotFragmentLength swapped_example None = Inr d
          \<and> xMax d = Some 120
          \<and> (\<forall>eid \<in> {''A'', ''B''}.
                \<exists>s. series d eid = Some s
                   \<and> map point_x (line s) = filter (\<lambda>fl. int fl mod 10 = 0) [0..<120])
          \<and> (\<forall>eid s p. series d eid = Some s \<and> p \<in> set (line s) \<longrightarrow> point_x p < 120)
          \<and> (\<exists>ref. reference_series d = Some ref
                \<and> map point_x (reference_line ref) = filter (\<lambda>fl. int fl mod 10 = 0) [0..<120]
                \<and> (\<forall>p \<in> set (reference_line ref). point_x p < 120)))"
proof -
  have c: "120 \<le> length (distribution \<lparr>source = ''reference'', distribution = uniform_counts 150\<rparr>)"
    by (simp add: length_uniform_counts)
  have m1: "metrics truncation_example
         = [(''A'', example_experiment ''A'' (Some ''s1'') 0 (uniform_counts 150) None),
            (''B'', example_experiment ''B'' (Some ''s2'') 0 (uniform_counts 120) None)]"
    by (simp add: truncation_example_def example_configuration_def)
  have d1: "distinct (map fst (metrics truncation_example))"
    by (simp add: m1)
  have n1: "metrics truncation_example \<noteq> []"
    by (simp add: m1)
  have k1: "fst ` set (metrics truncation_example) = {''A'', ''B''}"
    by (simp add: m1)
  have M1: "Min ((\<lambda>p. length (fragment_length_counts (snd p))) ` set (metrics truncation_example)) = 120"
    by (simp add: m1 example_experiment_def length_uniform_counts)
  have r1: "fragment_length_reference truncation_example
           = Some \<lparr>source = ''reference'', distribution = uniform_counts 150\<rparr>"
    by (simp add: truncation_example_def example_configuration_def)
  note t1 = plotted_length_is_shortest_histogram [OF d1 n1 r1, of None, unfolded Let_def M1 k1 if_P [OF c]]
  have m2: "metrics swapped_example
         = [(''A'', example_experiment ''A'' (Some ''s1'') 0 (uniform_counts 120) None),
            (''B'', example_experiment ''B'' (Some ''s2'') 0 (uniform_counts 150) None)]"
    by (simp add: swapped_example_def example_configuration_def)
  have d2: "distinct (map fst (metrics swapped_example))"
    by (simp add: m2)
  have n2: "metrics swapped_example \<noteq> []"
    by (simp add: m2)
  have k2: "fst ` set (metrics swapped_example) = {''A'', ''B''}"
    by (simp add: m2)
  have M2: "Min ((\<lambda>p. length (fragment_length_counts (snd p))) ` set (metrics swapped_example)) = 120"
    by (simp add: m2 example_experiment_def length_uniform_counts)
  have r2: "fragment_length_reference swapped_example
           = Some \<lparr>source = ''reference'', distribution = uniform_counts 150\<rparr>"
    by (simp add: swapped_example_def example_configuration_def)
  note t2 = plotted_length_is_shortest_histogram [OF d2 n2 r2, of None, unfolded Let_def M2 k2 if_P [OF c]]
  have a: "\<exists>d. plotFragmentLength truncation_example None = Inr d
          \<and> xMax d = Some 120
          \<and> (\<forall>eid \<in> {''A'', ''B''}.
                \<exists>s. series d eid = Some s
                   \<and> map point_x (line s) = filter (\<lambda>fl. int fl mod 10 = 0) [0..<120])
          \<and> (\<forall>eid s p. series d eid = Some s \<and> p \<in> set (line s) \<longrightarrow> point_x p < 120)
          \<and> (\<exists>ref. reference_series d = Some ref
                \<and> map point_x (reference_line ref) = filter (\<lambda>fl. int fl mod 10 = 0) [0..<120]
                \<and> (\<forall>p \<in> set (reference_line ref). point_x p < 120))"
    using t1 by simp
  have b: "\<exists>d. plotFragmentLength swapped_example None = Inr d
          \<and> xMax d = Some 120
          \<and> (\<forall>eid \<in> {''A'', ''B''}.
                \<exists>s. series d eid = Some s
                   \<and> map point_x (line s) = filter (\<lambda>fl. int fl mod 10 = 0) [0..<120])
          \<and> (\<forall>eid s p. series d eid = Some s \<and> p \<in> set (line s) \<longrightarrow> point_x p < 120)
          \<and> (\<exists>ref. reference_series d = Some ref
                \<and> map point_x (reference_line ref) = filter (\<lambda>fl. int fl mod 10 = 0) [0..<120]
                \<and> (\<forall>p \<in> set (reference_line ref). point_x p < 120))"
    using t2 by simp
  show ?thesis
    using d1 n1 r1 a d2 n2 r2 b by (intro conjI)
qed

text \<open>
  Claim C6 as stated fails: with histograms of 150 and 120 entries and a reference
  distribution of 100 entries the fragment length plot throws, and nothing is plotted
  up to 120.
\<close>

theorem short_reference_counterexample:
  "length (uniform_counts 100) = 100
   \<and> fragment_length_reference short_reference_example
       = Some \<lparr>source = ''reference'', distribution = uniform_counts 100\<rparr>
   \<and> plotFragmentLength short_reference_example None = Inl TypeError"
proof -
  have m: "metrics short_reference_example
         = [(''A'', example_experiment ''A'' (Some ''s1'') 0 (uniform_counts 150) None),
            (''B'', example_experiment ''B'' (Some ''s2'') 0 (uniform_counts 120) None)]"
    by (simp add: short_reference_example_def example_configuration_def)
  have d: "distinct (map fst (metrics short_reference_example))"
    by (simp add: m)
  have r: "fragment_length_reference short_reference_example
           = Some \<lparr>source = ''reference'', distribution = uniform_counts 100\<rparr>"
    by (simp add: short_reference_example_def example_configuration_def)
  have M: "d3_min (histogram_lengths short_reference_example) = Some 120"
    by (simp add: d3_min_histogram_lengths [OF d] m example_experiment_def length_uniform_counts)
  have c: "\<not> (120 \<le> length (distribution \<lparr>source = ''reference'', distribution = uniform_counts 100\<rparr>))"
    by (simp add: length_uniform_counts)
  note t = plotFragmentLength_with_reference [OF r, of None, unfolded M option.case if_not_P [OF c]]
  show ?thesis
    using r t by (simp add: length_uniform_counts)
qed

lemma peak_plot_returns:
  "\<exists>d. for_each (peak_series field conf) (sorted_experimentIDs conf) r = Inr d"
proof -
  have "set (sorted_experimentIDs conf) \<subseteq> fst ` set (metrics conf)"
    by (simp add: set_sorted_experimentIDs)
  from peak_loop [OF this, of field r] show ?thesis
    by (elim exE conjE) (rule exI)
qed

lemma plotMapq_returns: "\<exists>d. plotMapq conf = Inr d"
  unfolding plotMapq_def
proof (rule for_each_total)
  fix v t
  assume "v \<in> set (sorted_experimentIDs conf)"
  then obtain e where "get_experiment conf v = Inr e"
    using get_experiment_key [of v conf] by (auto simp: set_sorted_experimentIDs)
  then show "\<exists>t'. mapq_series conf v t = Inr t'"
    by (simp add: mapq_series_def bind_def Let_def)
qed

lemma plotFragmentLength_returns_iff:
  assumes "distinct (map fst (metrics conf))"
  shows "(\<exists>d. plotFragmentLength conf resolutionSelect = Inr d)
       = (\<exists>ref. fragment_length_reference conf = Some ref
            \<and> (metrics conf = []
                \<or> Min ((\<lambda>p. length (fragment_length_counts (snd p))) ` set (metrics conf))
                   \<le> length (distribution ref)))"
proof (cases "fragment_length_reference conf")
  case None
  then show ?thesis
    by (simp add: plotFragmentLength_no_reference)
next
  case (Some ref)
  let ?fits = "case d3_min (histogram_lengths conf) of None \<Rightarrow> True
               | Some n \<Rightarrow> n \<le> length (distribution ref)"
  have f: "?fits = (metrics conf = []
                \<or> Min ((\<lambda>p. length (fragment_length_counts (snd p))) ` set (metrics conf))
                   \<le> length (distribution ref))"
    by (simp add: d3_min_histogram_lengths [OF assms])
  note r = plotFragmentLength_with_reference [OF Some, of resolutionSelect]
  have "(\<exists>d. plotFragmentLength conf resolutionSelect = Inr d) = ?fits"
  proof (cases ?fits)
    case True
    from r [unfolded if_P [OF True]] have "\<exists>d. plotFragmentLength conf resolutionSelect = Inr d"
      by (elim exE conjE) (rule exI)
    then show ?thesis using True by simp
  next
    case False
    from r [unfolded if_not_P [OF False]] show ?thesis using False by simp
  qed
  then show ?thesis using f Some by simp
qed

text \<open>
  Claim C2, amended. The mapping quality plot, the peak plots and the scatter plot
  return their data for every document, whether or not \<open>peak_percentiles\<close> and \<open>library.sample\<close> are present. The
  fragment length plot returns its data exactly when \<open>fragment_length_reference\<close> is
  present and its distribution has at least as many entries as the shortest histogram
  (no condition on the distribution when there is no experiment); without
  \<open>fragment_length_reference\<close> it throws a \<open>TypeError\<close>.
\<close>

theorem transforms_return:
  assumes "distinct (map fst (metrics conf))"
  shows "((\<exists>d. plotFragmentLength conf resolutionSelect = Inr d)
          = (\<exists>ref. fragment_length_reference conf = Some ref
               \<and> (metrics conf = []
                   \<or> Min ((\<lambda>p. length (fragment_length_counts (snd p))) ` set (metrics conf))
                      \<le> length (distribution ref))))
       \<and> (fragment_length_reference conf = None
            \<longrightarrow> plotFragmentLength conf resolutionSelect = Inl TypeError)
       \<and> (\<exists>d. plotMapq conf = Inr d)
       \<and> (\<exists>d. plotPeakReadCounts conf = Inr d)
       \<and> (\<exists>d. plotPeakTerritory conf = Inr d)
       \<and> (\<exists>data samples. scatter_data conf = Inr (data, samples))"
  unfolding plotPeakReadCounts_def plotPeakTerritory_def
  using plotFragmentLength_returns_iff [OF assms, of resolutionSelect]
    plotFragmentLength_no_reference [of conf resolutionSelect]
    plotMapq_returns [of conf] peak_plot_returns scatter_data_returns [of conf]
  by (intro conjI impI) assumption+

theorem transforms_return_witness:
  "distinct (map fst (metrics block_example))
   \<and> (\<exists>d. plotFragmentLength block_example (Some 2) = Inr d)
   \<and> (\<exists>d. plotMapq block_example = Inr d)
   \<and> (\<exists>d. plotPeakReadCounts block_example = Inr d)
   \<and> (\<exists>d. plotPeakTerritory block_example = Inr d)
   \<and> (\<exists>data samples. scatter_data block_example = Inr (data, samples))"
proof -
  have d: "distinct (map fst (metrics block_example))"
    by (simp add: block_example_def example_configuration_def)
  have r: "\<exists>ref. fragment_length_reference block_example = Some ref
               \<and> (metrics block_example = []
                   \<or> Min ((\<lambda>p. length (fragment_length_counts (snd p))) ` set (metrics block_example))
                      \<le> length (distribution ref))"
    by (simp add: block_example_def example_configuration_def block_experiment_def
        example_experiment_def)
  show ?thesis
    using d r transforms_return [OF d, of "Some 2"] by simp
qed

text \<open>
  Claim C2 as stated fails: on a document without \<open>fragment_length_reference\<close> the
  fragment length plot throws.
\<close>

theorem missing_reference_counterexample:
  "fragment_length_reference no_reference_example = None
   \<and> plotFragmentLength no_reference_example (Some 2) = Inl TypeError"
proof -
  have n: "fragment_length_reference no_reference_example = None"
    by (simp add: no_reference_example_def example_configuration_def)
  then have "plotFragmentLength no_reference_example (Some 2) = Inl TypeError"
    by (rule plotFragmentLength_no_reference)
  with n show ?thesis by simp
qed

end
